theory Spec2Isabelle
  imports Main "HOL-Library.AList"
begin

section \<open>Persistence collaborator (Supabase tables)\<close>

text \<open>
  The services talk to a PostgREST client.  A table is the list of its rows (PostgREST
  gives no uniqueness by itself, and \<^verbatim>\<open>.single()\<close> fails unless exactly one row
  matches).  Whether a request on a table errors is part of the state: \<open>failing\<close>
  tells, per table and operation, that the request returns an \<^verbatim>\<open>error\<close>.
  Integer columns are \<open>int\<close>.  A calendar date (the \<^verbatim>\<open>YYYY-MM-DD\<close> prefix of
  \<^verbatim>\<open>toISOString()\<close>) is the number of the UTC day; a timestamp is in milliseconds
  since the epoch, as \<^verbatim>\<open>Date.now()\<close> gives it.
\<close>

type_synonym user_id = string
type_synonym campaign_id = string
type_synonym date = nat
type_synonym timestamp = nat

datatype action_type = Connections | Messages | Visits | Inmails

datatype pending_job_type = FollowRequestPJ | SendMessagePJ | FollowResponsePJ

datatype log_level = Info | Warn | Error

datatype table =
    T_linkedin_settings | T_daily_usage | T_pending_jobs | T_activity_logs
  | T_profiles | T_linkedin_campaigns | T_linkedin_accounts | T_linkedin_connections

datatype db_op = Select | Insert | Update | Delete

record DailyUsage =
  connections :: int
  messages :: int
  visits :: int
  inmails :: int
  date :: date

record LinkedInSettings =
  max_connections_per_day :: int
  max_message_per_day :: int
  total_visits_per_day :: int
  max_inmails_per_day :: int

record QuotaInfo =
  remainingConnections :: int
  remainingMessages :: int
  remainingVisits :: int
  remainingInmails :: int

record PendingJob =
  pj_id :: nat
  user_id :: user_id
  campaign_id :: campaign_id
  job_type :: pending_job_type
  action_type :: action_type
  requested_count :: int
  created_at :: timestamp
  retry_count :: int
  max_retries :: int

datatype jvalue = JNumber int | JString string | JObject "(string \<times> jvalue) list"

record ActivityLogData =
  log_user_id :: user_id
  log_campaign_id :: campaign_id
  log_job_type :: string
  log_level :: log_level
  log_message :: string
  log_context :: "(string \<times> jvalue) list"

datatype campaign_type = Search | Reactions | Comments | Event | Csv

datatype campaign_status = Queued | Active | Paused | Completed

text \<open>
  The columns of a campaign, an account, a connection and a profile row that the services
  read or write.
\<close>

record Campaign =
  c_id :: campaign_id
  c_user_id :: user_id
  c_name :: string
  linkedin_url :: string
  campaign_type :: "campaign_type option"
  status :: "campaign_status option"
  total_profiles :: int
  processed_profiles :: int
  connection_note :: "string option"

record LinkedInAccount =
  a_id :: string
  a_user_id :: user_id
  email :: string
  password :: string
  is_active :: bool

datatype connection_status = CQueued | CPending | CSent | CAccepted | CRejected

record LinkedInConnection =
  lc_campaign_id :: campaign_id
  profile_url :: string
  display_name :: string
  first_name :: string
  last_name :: string
  lc_headline :: string
  current_company :: string
  lc_status :: connection_status
  requested_at :: timestamp

record Profile =
  p_id :: user_id
  p_created_at :: timestamp

record db =
  linkedin_settings :: "(user_id \<times> LinkedInSettings) list"
  daily_usage :: "(user_id \<times> DailyUsage) list"
  pending_jobs :: "PendingJob list"
  activity_logs :: "(ActivityLogData \<times> timestamp) list"
  profiles :: "Profile list"
  linkedin_campaigns :: "Campaign list"
  linkedin_accounts :: "LinkedInAccount list"
  linkedin_connections :: "(nat \<times> LinkedInConnection) list"
  next_row_id :: nat
  failing :: "table \<Rightarrow> db_op \<Rightarrow> bool"

definition empty_db :: db where
  "empty_db =
     \<lparr>linkedin_settings = [], daily_usage = [], pending_jobs = [], activity_logs = [],
      profiles = [], linkedin_campaigns = [], linkedin_accounts = [],
      linkedin_connections = [], next_row_id = 0, failing = (\<lambda>t oper. False)\<rparr>"

definition single :: "'a list \<Rightarrow> 'a option" where
  "single rows = (case rows of [r] \<Rightarrow> Some r | _ \<Rightarrow> None)"

definition today :: "timestamp \<Rightarrow> date" where
  "today now = now div 86400000"

section \<open>Quota manager (LinkedInSettingsService)\<close>

definition defaultSettings :: LinkedInSettings where
  "defaultSettings =
     \<lparr>max_connections_per_day = 30, max_message_per_day = 50,
      total_visits_per_day = 100, max_inmails_per_day = 0\<rparr>"

text \<open>
  \<^verbatim>\<open>loadLinkedInSettings\<close>: the row of the user, or, when the select errors or gives no
  single row, the default caps, which it also tries to insert; a failed insert is logged
  and the defaults are returned all the same.
\<close>

definition loadLinkedInSettings :: "db \<Rightarrow> user_id \<Rightarrow> LinkedInSettings \<times> db" where
  "loadLinkedInSettings d uid =
     (case (if failing d T_linkedin_settings Select then None
            else single (filter (\<lambda>r. fst r = uid) (linkedin_settings d))) of
        Some r \<Rightarrow> (snd r, d)
      | None \<Rightarrow>
          if failing d T_linkedin_settings Insert then (defaultSettings, d)
          else (defaultSettings,
                d\<lparr>linkedin_settings := linkedin_settings d @ [(uid, defaultSettings)]\<rparr>))"

text \<open>
  \<^verbatim>\<open>getDailyUsage\<close>: the usage row of the user for the target date (today when no date
  is given), or all-zero counters when the select errors or gives no single row.
\<close>

definition getDailyUsage :: "db \<Rightarrow> timestamp \<Rightarrow> user_id \<Rightarrow> date option \<Rightarrow> DailyUsage" where
  "getDailyUsage d now uid date_opt =
     (let targetDate = (case date_opt of Some dt \<Rightarrow> dt | None \<Rightarrow> today now) in
      case (if failing d T_daily_usage Select then None
            else single (filter (\<lambda>r. fst r = uid \<and> date (snd r) = targetDate)
                           (daily_usage d))) of
        Some r \<Rightarrow> snd r
      | None \<Rightarrow> \<lparr>connections = 0, messages = 0, visits = 0, inmails = 0, date = targetDate\<rparr>)"

definition getRemainingQuotas :: "db \<Rightarrow> timestamp \<Rightarrow> user_id \<Rightarrow> QuotaInfo \<times> db" where
  "getRemainingQuotas d now uid =
     (let (settings, d1) = loadLinkedInSettings d uid;
          usage = getDailyUsage d1 now uid None
      in (\<lparr>remainingConnections = max 0 (max_connections_per_day settings - connections usage),
           remainingMessages = max 0 (max_message_per_day settings - messages usage),
           remainingVisits = max 0 (total_visits_per_day settings - visits usage),
           remainingInmails = max 0 (max_inmails_per_day settings - inmails usage)\<rparr>, d1))"

text \<open>
  The \<^verbatim>\<open>switch\<close> on the action type: its \<^verbatim>\<open>default\<close> branch is for no value of the
  TypeScript union, so the four cases are all there is.
\<close>

definition availableQuota :: "QuotaInfo \<Rightarrow> action_type \<Rightarrow> int" where
  "availableQuota quotas actionType =
     (case actionType of
        Connections \<Rightarrow> remainingConnections quotas
      | Messages \<Rightarrow> remainingMessages quotas
      | Visits \<Rightarrow> remainingVisits quotas
      | Inmails \<Rightarrow> remainingInmails quotas)"

definition hasRemainingQuota ::
  "db \<Rightarrow> timestamp \<Rightarrow> user_id \<Rightarrow> action_type \<Rightarrow> int \<Rightarrow> bool \<times> db" where
  "hasRemainingQuota d now uid actionType requestedCount =
     (let (quotas, d1) = getRemainingQuotas d now uid in
      (case actionType of
         Connections \<Rightarrow> remainingConnections quotas \<ge> requestedCount
       | Messages \<Rightarrow> remainingMessages quotas \<ge> requestedCount
       | Visits \<Rightarrow> remainingVisits quotas \<ge> requestedCount
       | Inmails \<Rightarrow> remainingInmails quotas \<ge> requestedCount, d1))"

definition getMaxActionsForRun ::
  "db \<Rightarrow> timestamp \<Rightarrow> user_id \<Rightarrow> action_type \<Rightarrow> int \<Rightarrow> int \<times> db" where
  "getMaxActionsForRun d now uid actionType requestedCount =
     (let (quotas, d1) = getRemainingQuotas d now uid in
      (min requestedCount (availableQuota quotas actionType), d1))"

text \<open>The limit and the usage that the quota computation reads for a user.\<close>

definition limitOf :: "db \<Rightarrow> user_id \<Rightarrow> action_type \<Rightarrow> int" where
  "limitOf d uid actionType =
     (let s = fst (loadLinkedInSettings d uid) in
      case actionType of
        Connections \<Rightarrow> max_connections_per_day s
      | Messages \<Rightarrow> max_message_per_day s
      | Visits \<Rightarrow> total_visits_per_day s
      | Inmails \<Rightarrow> max_inmails_per_day s)"

definition usageToday :: "db \<Rightarrow> timestamp \<Rightarrow> user_id \<Rightarrow> action_type \<Rightarrow> int" where
  "usageToday d now uid actionType =
     (let u = getDailyUsage d now uid None in
      case actionType of
        Connections \<Rightarrow> connections u
      | Messages \<Rightarrow> messages u
      | Visits \<Rightarrow> visits u
      | Inmails \<Rightarrow> inmails u)"

section \<open>Properties of the quota manager\<close>

lemma loadLinkedInSettings_daily_usage:
  "daily_usage (snd (loadLinkedInSettings d uid)) = daily_usage d"
  by (simp add: loadLinkedInSettings_def split: option.splits)

lemma loadLinkedInSettings_failing:
  "failing (snd (loadLinkedInSettings d uid)) = failing d"
  by (simp add: loadLinkedInSettings_def split: option.splits)

lemma getDailyUsage_after_load:
  "getDailyUsage (snd (loadLinkedInSettings d uid)) now u dt = getDailyUsage d now u dt"
  by (simp add: getDailyUsage_def Let_def loadLinkedInSettings_daily_usage
      loadLinkedInSettings_failing)

lemma availableQuota_eq:
  "availableQuota (fst (getRemainingQuotas d now uid)) k =
     max 0 (limitOf d uid k - usageToday d now uid k)"
proof -
  obtain s d1 where l: "loadLinkedInSettings d uid = (s, d1)"
    by (cases "loadLinkedInSettings d uid") auto
  have u: "getDailyUsage d1 now uid None = getDailyUsage d now uid None"
    using getDailyUsage_after_load [of d uid now uid None] l by simp
  show ?thesis
    by (cases k) (simp_all add: availableQuota_def getRemainingQuotas_def limitOf_def
        usageToday_def l u Let_def)
qed

lemma getMaxActionsForRun_fst:
  "fst (getMaxActionsForRun d now uid k n) =
     min n (availableQuota (fst (getRemainingQuotas d now uid)) k)"
  by (simp add: getMaxActionsForRun_def case_prod_beta)

lemma getMaxActionsForRun_snd:
  "snd (getMaxActionsForRun d now uid k n) = snd (loadLinkedInSettings d uid)"
  by (simp add: getMaxActionsForRun_def getRemainingQuotas_def case_prod_beta Let_def)

text \<open>
  C4.  For every state of the tables, every user and every time, each of the four
  values returned by \<^verbatim>\<open>getRemainingQuotas\<close> is \<open>max 0 (limit - usageToday)\<close> for its
  resource, and none is negative.
\<close>

theorem getRemainingQuotas_clamped:
  "remainingConnections (fst (getRemainingQuotas d now uid)) =
      max 0 (limitOf d uid Connections - usageToday d now uid Connections)
   \<and> remainingMessages (fst (getRemainingQuotas d now uid)) =
      max 0 (limitOf d uid Messages - usageToday d now uid Messages)
   \<and> remainingVisits (fst (getRemainingQuotas d now uid)) =
      max 0 (limitOf d uid Visits - usageToday d now uid Visits)
   \<and> remainingInmails (fst (getRemainingQuotas d now uid)) =
      max 0 (limitOf d uid Inmails - usageToday d now uid Inmails)
   \<and> 0 \<le> remainingConnections (fst (getRemainingQuotas d now uid))
   \<and> 0 \<le> remainingMessages (fst (getRemainingQuotas d now uid))
   \<and> 0 \<le> remainingVisits (fst (getRemainingQuotas d now uid))
   \<and> 0 \<le> remainingInmails (fst (getRemainingQuotas d now uid))"
proof -
  have a: "\<And>k. availableQuota (fst (getRemainingQuotas d now uid)) k =
             max 0 (limitOf d uid k - usageToday d now uid k)"
    by (rule availableQuota_eq)
  show ?thesis
    using a [of Connections] a [of Messages] a [of Visits] a [of Inmails]
    by (simp add: availableQuota_def)
qed


text \<open>
  A user whose 45 connections of the day have over-run the cap of 30, on day 20000;
  \<open>a_moment\<close> is a moment of that day.
\<close>

definition db_overrun :: db where
  "db_overrun =
     empty_db
       \<lparr>linkedin_settings := [(''u1'', defaultSettings)],
        daily_usage := [(''u1'', \<lparr>connections = 45, messages = 10, visits = 0, inmails = 0,
                                 date = 20000\<rparr>)]\<rparr>"

definition a_moment :: timestamp where
  "a_moment = 20000 * 86400000 + 5"

lemma today_a_moment: "today a_moment = 20000"
  by (simp add: today_def a_moment_def)

theorem getRemainingQuotas_clamped_witness:
  "limitOf db_overrun ''u1'' Connections = 30
   \<and> usageToday db_overrun a_moment ''u1'' Connections = 45
   \<and> remainingConnections (fst (getRemainingQuotas db_overrun a_moment ''u1'')) = 0
   \<and> remainingMessages (fst (getRemainingQuotas db_overrun a_moment ''u1'')) = 40"
proof -
  have l: "limitOf db_overrun ''u1'' Connections = 30"
          "limitOf db_overrun ''u1'' Messages = 50"
    by (simp_all add: limitOf_def loadLinkedInSettings_def db_overrun_def empty_db_def single_def
        defaultSettings_def)
  have u: "usageToday db_overrun a_moment ''u1'' Connections = 45"
          "usageToday db_overrun a_moment ''u1'' Messages = 10"
    by (simp_all add: usageToday_def getDailyUsage_def db_overrun_def empty_db_def single_def today_a_moment)
  show ?thesis
    using getRemainingQuotas_clamped [of db_overrun a_moment "''u1''"] l u
    by simp
qed

text \<open>
  C10.  For every state, user, resource kind and requested count \<open>n\<close>,
  \<^verbatim>\<open>hasRemainingQuota\<close> answers true exactly when \<^verbatim>\<open>getMaxActionsForRun\<close> returns
  \<open>n\<close> itself.
\<close>

theorem hasRemainingQuota_iff_unclamped:
  "fst (hasRemainingQuota d now uid k n) \<longleftrightarrow> fst (getMaxActionsForRun d now uid k n) = n"
  by (cases k)
     (auto simp add: hasRemainingQuota_def getMaxActionsForRun_def availableQuota_def
        split: prod.splits)

theorem hasRemainingQuota_iff_unclamped_witness:
  "fst (hasRemainingQuota db_overrun a_moment ''u1'' Messages 40)
   \<and> fst (getMaxActionsForRun db_overrun a_moment ''u1'' Messages 40) = 40
   \<and> \<not> fst (hasRemainingQuota db_overrun a_moment ''u1'' Messages 41)
   \<and> fst (getMaxActionsForRun db_overrun a_moment ''u1'' Messages 41) \<noteq> 41"
proof -
  have a: "availableQuota (fst (getRemainingQuotas db_overrun a_moment ''u1''))
             Messages = 40"
    by (simp add: getRemainingQuotas_def loadLinkedInSettings_def getDailyUsage_def
        db_overrun_def empty_db_def single_def today_a_moment defaultSettings_def availableQuota_def)
  have m: "fst (getMaxActionsForRun db_overrun a_moment ''u1'' Messages 40) = 40"
          "fst (getMaxActionsForRun db_overrun a_moment ''u1'' Messages 41) \<noteq> 41"
    using a by (simp_all add: getMaxActionsForRun_fst)
  show ?thesis
    using m hasRemainingQuota_iff_unclamped [of db_overrun a_moment "''u1''" Messages 40]
      hasRemainingQuota_iff_unclamped [of db_overrun a_moment "''u1''" Messages 41]
    by simp
qed

section \<open>The outside world: clock and remote browser\<close>

text \<open>
  Calls into Puppeteer and \<^verbatim>\<open>PuppeteerService\<close> (launching a browser, opening a page,
  navigation, screenshots, input, closing) are answered by the environment.  The
  environment is a script of answers, consumed one per call: each answer says how long the
  call took, whether it threw, and the value it gave.  A script that has run out answers
  with an error.  \<^verbatim>\<open>Date.now()\<close> reads the clock.
\<close>

record js_error =
  err_name :: string
  err_message :: string
  err_stack :: string

record person =
  url :: string
  name :: string
  headline :: string
  company :: string

record answer =
  elapsed :: nat
  thrown :: "js_error option"
  flag :: bool
  text_val :: string
  people :: "person list"

record BrowserSessionInfo =
  browser :: nat
  page :: nat
  isLoggedIn :: bool
  createdAt :: timestamp
  lastActivity :: timestamp
  userId :: user_id
  sessionId :: "user_id \<times> timestamp"

text \<open>
  The job queue (a BullMQ queue on Redis).  The free-form \<^verbatim>\<open>data\<close> of a job is the
  record of the keys that the services write and read, each of them optional.
\<close>

datatype jobType =
  FollowRequest | FollowResponse | SendMessages | ProcessPendingJobs | ProcessSingleCampaign

record payload =
  pl_importLimit :: "int option"
  pl_maxDurationMs :: "int option"
  pl_pendingJobId :: "nat option"
  pl_actionType :: "action_type option"
  pl_requestedCount :: "int option"

record JobData =
  jd_userId :: user_id
  jd_campaignId :: campaign_id
  jd_jobType :: jobType
  jd_data :: "payload option"

datatype job_state = JWaiting | JActive | JCompleted | JFailed | JDelayed

record Job =
  job_id :: nat
  job_name :: jobType
  job_data :: JobData
  job_state :: job_state
  attemptsMade :: nat
  failedReason :: "string option"

record bull_queue =
  jobs :: "Job list"
  next_job_id :: nat
  unavailable :: bool

definition empty_queue :: bull_queue where
  "empty_queue = \<lparr>jobs = [], next_job_id = 1, unavailable = False\<rparr>"

record world =
  database :: db
  sessions :: "(user_id \<times> BrowserSessionInfo) list"
  timers :: "(timestamp \<times> user_id) list"
  clock :: timestamp
  script :: "answer list"
  next_handle :: nat
  queue :: bull_queue

definition target_closed :: js_error where
  "target_closed =
     \<lparr>err_name = ''Error'', err_message = ''Target closed'', err_stack = ''''\<rparr>"

definition call :: "world \<Rightarrow> (js_error + answer) \<times> world" where
  "call w =
     (case script w of
        [] \<Rightarrow> (Inl target_closed, w)
      | a # rest \<Rightarrow>
          (let w1 = w\<lparr>clock := clock w + elapsed a, script := rest\<rparr> in
           case thrown a of Some e \<Rightarrow> (Inl e, w1) | None \<Rightarrow> (Inr a, w1)))"

definition new_handle :: "world \<Rightarrow> nat \<times> world" where
  "new_handle w = (next_handle w, w\<lparr>next_handle := Suc (next_handle w)\<rparr>)"

section \<open>Session manager (SessionService)\<close>

text \<open>
  The \<^verbatim>\<open>Map\<close> of sessions is an association list in insertion order: \<^verbatim>\<open>set\<close>
  replaces the entry of the key where it stands or appends a new one, \<^verbatim>\<open>delete\<close>
  removes it, \<^verbatim>\<open>get\<close> finds it.  A timer set by \<^verbatim>\<open>setTimeout\<close> is an entry of
  \<open>timers\<close>: the time it is due and the user whose session it will check.
\<close>

definition timeoutMs :: nat where
  "timeoutMs = 20 * 60 * 1000"

definition createSession :: "world \<Rightarrow> user_id \<Rightarrow> (js_error + BrowserSessionInfo) \<times> world" where
  "createSession w uid =
     (case call w of
        (Inl e, w1) \<Rightarrow> (Inl e, w1)
      | (Inr _, w1) \<Rightarrow>
     (let (b, w2) = new_handle w1 in
      case call w2 of
        (Inl e, w3) \<Rightarrow> (Inl e, w3)
      | (Inr _, w3) \<Rightarrow>
     (let (p, w4) = new_handle w3 in
      case call w4 of
        (Inl e, w5) \<Rightarrow> (Inl e, w5)
      | (Inr _, w5) \<Rightarrow>
     (let sessionInfo =
            \<lparr>browser = b, page = p, isLoggedIn = False, createdAt = clock w5,
             lastActivity = clock w5, userId = uid, sessionId = (uid, clock w5)\<rparr>;
          w6 = w5\<lparr>sessions := AList.update uid sessionInfo (sessions w5)\<rparr>
      in case call w6 of
        (Inl e, w7) \<Rightarrow> (Inl e, w7)
      | (Inr _, w7) \<Rightarrow>
          (Inr sessionInfo, w7\<lparr>timers := timers w7 @ [(clock w7 + timeoutMs, uid)]\<rparr>)))))"

definition getSession :: "world \<Rightarrow> user_id \<Rightarrow> BrowserSessionInfo option \<times> world" where
  "getSession w uid =
     (case map_of (sessions w) uid of
        Some session \<Rightarrow>
          (let session1 = session\<lparr>lastActivity := clock w\<rparr> in
           (Some session1, w\<lparr>sessions := AList.update uid session1 (sessions w)\<rparr>))
      | None \<Rightarrow> (None, w))"

definition getOrCreateSession ::
  "world \<Rightarrow> user_id \<Rightarrow> (js_error + BrowserSessionInfo) \<times> world" where
  "getOrCreateSession w uid =
     (case getSession w uid of
        (Some session, w1) \<Rightarrow> (Inr session, w1)
      | (None, w1) \<Rightarrow> createSession w1 uid)"

definition updateSessionActivity :: "world \<Rightarrow> user_id \<Rightarrow> world" where
  "updateSessionActivity w uid =
     (case map_of (sessions w) uid of
        Some session \<Rightarrow>
          w\<lparr>sessions := AList.update uid (session\<lparr>lastActivity := clock w\<rparr>) (sessions w)\<rparr>
      | None \<Rightarrow> w)"






text \<open>
  \<^verbatim>\<open>closeSession\<close>: when closing the browser throws, the error is caught and logged and
  the entry stays in the map.
\<close>

definition closeSession :: "world \<Rightarrow> user_id \<Rightarrow> world" where
  "closeSession w uid =
     (case map_of (sessions w) uid of
        None \<Rightarrow> w
      | Some session \<Rightarrow>
          (case call w of
             (Inl e, w1) \<Rightarrow> w1
           | (Inr _, w1) \<Rightarrow> w1\<lparr>sessions := AList.delete uid (sessions w1)\<rparr>))"

definition isExpired :: "world \<Rightarrow> BrowserSessionInfo \<Rightarrow> bool" where
  "isExpired w session \<longleftrightarrow> int (clock w) - int (lastActivity session) > int timeoutMs"

definition cleanupSession :: "world \<Rightarrow> user_id \<Rightarrow> world" where
  "cleanupSession w uid =
     (case map_of (sessions w) uid of
        None \<Rightarrow> w
      | Some session \<Rightarrow>
          if isExpired w session then closeSession w uid
          else w\<lparr>timers := timers w @ [(clock w + timeoutMs, uid)]\<rparr>)"



definition getActiveSessions :: "world \<Rightarrow> user_id list" where
  "getActiveSessions w = map fst (sessions w)"

definition getSessionCount :: "world \<Rightarrow> nat" where
  "getSessionCount w = length (sessions w)"









subsection \<open>Requests that overlap\<close>

text \<open>
  An \<^verbatim>\<open>async\<close> method runs until its next \<^verbatim>\<open>await\<close> and is resumed when the awaited
  call has resolved; in between, other requests run.  A request of
  \<^verbatim>\<open>getOrCreateSession\<close> in flight is the \<^verbatim>\<open>await\<close> it is suspended at, with the local
  variables it holds: the lookup (l.78), then inside \<^verbatim>\<open>createSession\<close> the launch of the
  browser (l.30), the creation of the page (l.31), the navigation (l.33) and the screenshot
  (l.51).  \<^verbatim>\<open>getSession\<close> has no \<^verbatim>\<open>await\<close> of its own: the lookup is made when the
  request is called.  The session is put into the map (l.49) in the piece that runs when
  the navigation has resolved.
\<close>

datatype request =
    Called user_id
  | AtGetSession user_id "BrowserSessionInfo option"
  | AtLaunchBrowser user_id
  | AtCreatePage user_id nat
  | AtGoto user_id nat nat
  | AtScreenshot user_id BrowserSessionInfo
  | Returned "js_error + BrowserSessionInfo"

fun resume :: "world \<Rightarrow> request \<Rightarrow> request \<times> world" where
  "resume w (Called uid) =
     (let (session, w1) = getSession w uid in (AtGetSession uid session, w1))"
| "resume w (AtGetSession uid (Some session)) = (Returned (Inr session), w)"
| "resume w (AtGetSession uid None) = (AtLaunchBrowser uid, w)"
| "resume w (AtLaunchBrowser uid) =
     (case call w of
        (Inl e, w1) \<Rightarrow> (Returned (Inl e), w1)
      | (Inr _, w1) \<Rightarrow> (let (b, w2) = new_handle w1 in (AtCreatePage uid b, w2)))"
| "resume w (AtCreatePage uid b) =
     (case call w of
        (Inl e, w3) \<Rightarrow> (Returned (Inl e), w3)
      | (Inr _, w3) \<Rightarrow> (let (p, w4) = new_handle w3 in (AtGoto uid b p, w4)))"
| "resume w (AtGoto uid b p) =
     (case call w of
        (Inl e, w5) \<Rightarrow> (Returned (Inl e), w5)
      | (Inr _, w5) \<Rightarrow>
          (let sessionInfo =
                 \<lparr>browser = b, page = p, isLoggedIn = False, createdAt = clock w5,
                  lastActivity = clock w5, userId = uid, sessionId = (uid, clock w5)\<rparr>
           in (AtScreenshot uid sessionInfo,
               w5\<lparr>sessions := AList.update uid sessionInfo (sessions w5)\<rparr>)))"
| "resume w (AtScreenshot uid sessionInfo) =
     (case call w of
        (Inl e, w7) \<Rightarrow> (Returned (Inl e), w7)
      | (Inr _, w7) \<Rightarrow>
          (Returned (Inr sessionInfo),
           w7\<lparr>timers := timers w7 @ [(clock w7 + timeoutMs, uid)]\<rparr>))"
| "resume w (Returned r) = (Returned r, w)"

text \<open>
  The event loop resumes the requests in some order: the schedule names, step by step, the
  request that runs its next piece.
\<close>

fun interleave :: "world \<Rightarrow> request list \<Rightarrow> nat list \<Rightarrow> request list \<times> world" where
  "interleave w requests [] = (requests, w)"
| "interleave w requests (i # schedule) =
     (if i < length requests
      then (let (rq, w1) = resume w (requests ! i) in
            interleave w1 (requests[i := rq]) schedule)
      else interleave w requests schedule)"

section \<open>Properties of the session manager\<close>

lemma call_sessions: "sessions (snd (call w)) = sessions w"
  by (simp add: call_def Let_def split: list.splits option.splits)

lemma call_timers: "timers (snd (call w)) = timers w"
  by (simp add: call_def Let_def split: list.splits option.splits)

lemma call_cases:
  obtains e w1 where "call w = (Inl e, w1)" "sessions w1 = sessions w" "timers w1 = timers w"
  | a w1 where "call w = (Inr a, w1)" "sessions w1 = sessions w" "timers w1 = timers w"
proof (cases "call w")
  case (Pair r w1)
  have s: "sessions w1 = sessions w" "timers w1 = timers w"
    using call_sessions [of w] call_timers [of w] Pair by simp_all
  show ?thesis using Pair s that by (cases r) auto
qed

lemma call_frame:
  "call w = (r, w1) \<Longrightarrow>
     sessions w1 = sessions w \<and> timers w1 = timers w \<and> database w1 = database w
     \<and> next_handle w1 = next_handle w \<and> clock w \<le> clock w1"
  by (auto simp add: call_def Let_def split: list.splits option.splits)



lemma updateSessionActivity_getSession:
  "updateSessionActivity w uid = snd (getSession w uid)"
  by (simp add: updateSessionActivity_def getSession_def Let_def split: option.splits)



lemma getSession_frame:
  "timers (snd (getSession w v)) = timers w \<and> clock (snd (getSession w v)) = clock w
   \<and> script (snd (getSession w v)) = script w \<and> database (snd (getSession w v)) = database w
   \<and> next_handle (snd (getSession w v)) = next_handle w"
  by (simp add: getSession_def Let_def split: option.splits)









definition hasActiveSession :: "world \<Rightarrow> user_id \<Rightarrow> bool \<times> world" where
  "hasActiveSession w uid = (let (session, w1) = getSession w uid in (session \<noteq> None, w1))"

definition getSessionInfo :: "world \<Rightarrow> user_id \<Rightarrow> BrowserSessionInfo option \<times> world" where
  "getSessionInfo w uid = getSession w uid"






lemma update_same_keys: "map_of al k = Some v0 \<Longrightarrow> map fst (AList.update k v al) = map fst al"
  by (simp add: update_keys) (metis map_of_eq_None_iff option.distinct(1) set_map)


lemma call_keep: "map_of (sessions (snd (call w))) uid = map_of (sessions w) uid"
  by (simp add: call_sessions)







text \<open>
  C9.  A read of a user's live session through \<^verbatim>\<open>getSession\<close>, and so through
  \<^verbatim>\<open>hasActiveSession\<close> and \<^verbatim>\<open>getSessionInfo\<close>, leaves the state that an explicit
  \<^verbatim>\<open>updateSessionActivity\<close> leaves: the session's \<open>lastActivity\<close> becomes the current
  time and nothing else changes (the other fields of the session, the other sessions, the
  timers).  A cleanup timer that runs within the timeout after the read keeps the session.
\<close>

theorem getSession_updates_lastActivity:
  assumes "map_of (sessions w) uid = Some s"
  shows "getSession w uid = (Some (s\<lparr>lastActivity := clock w\<rparr>), updateSessionActivity w uid)
     \<and> hasActiveSession w uid = (True, updateSessionActivity w uid)
     \<and> getSessionInfo w uid = (Some (s\<lparr>lastActivity := clock w\<rparr>), updateSessionActivity w uid)
     \<and> map_of (sessions (updateSessionActivity w uid)) uid = Some (s\<lparr>lastActivity := clock w\<rparr>)
     \<and> (\<forall>v. v \<noteq> uid \<longrightarrow>
           map_of (sessions (updateSessionActivity w uid)) v = map_of (sessions w) v)
     \<and> map fst (sessions (updateSessionActivity w uid)) = map fst (sessions w)
     \<and> timers (updateSessionActivity w uid) = timers w
     \<and> clock (updateSessionActivity w uid) = clock w
     \<and> script (updateSessionActivity w uid) = script w
     \<and> database (updateSessionActivity w uid) = database w
     \<and> (\<forall>dt. dt \<le> timeoutMs \<longrightarrow>
           map_of (sessions (cleanupSession
              ((updateSessionActivity w uid)\<lparr>clock := clock w + dt\<rparr>) uid)) uid
           = Some (s\<lparr>lastActivity := clock w\<rparr>))"
proof -
  let ?s = "s\<lparr>lastActivity := clock w\<rparr>"
  have u: "updateSessionActivity w uid = w\<lparr>sessions := AList.update uid ?s (sessions w)\<rparr>"
    using assms by (simp add: updateSessionActivity_def)
  have g: "getSession w uid = (Some ?s, updateSessionActivity w uid)"
    using assms u by (simp add: getSession_def Let_def)
  have c: "\<forall>dt. dt \<le> timeoutMs \<longrightarrow>
           map_of (sessions (cleanupSession
              ((updateSessionActivity w uid)\<lparr>clock := clock w + dt\<rparr>) uid)) uid = Some ?s"
    by (simp add: u cleanupSession_def update_conv' isExpired_def)
  show ?thesis
    using g c u update_same_keys [OF assms, of ?s]
    by (simp add: hasActiveSession_def getSessionInfo_def update_conv')
qed

text \<open>A fresh session manager and an environment in which every call succeeds after a second.\<close>

definition ok_answer :: answer where
  "ok_answer = \<lparr>elapsed = 1000, thrown = None, flag = True, text_val = [], people = []\<rparr>"

definition w_fresh :: world where
  "w_fresh =
     \<lparr>database = db_overrun, sessions = [], timers = [], clock = 0,
      script = [ok_answer, ok_answer, ok_answer, ok_answer, ok_answer], next_handle = 0,
      queue = empty_queue\<rparr>"


lemma first_request:
  "getOrCreateSession w_fresh ''u1'' =
     (Inr \<lparr>browser = 0, page = 1, isLoggedIn = False, createdAt = 3000, lastActivity = 3000,
           userId = ''u1'', sessionId = (''u1'', 3000)\<rparr>,
      \<lparr>database = db_overrun,
       sessions = [(''u1'', \<lparr>browser = 0, page = 1, isLoggedIn = False, createdAt = 3000,
                     lastActivity = 3000, userId = ''u1'', sessionId = (''u1'', 3000)\<rparr>)],
       timers = [(1204000, ''u1'')], clock = 4000, script = [ok_answer], next_handle = 2,
       queue = empty_queue\<rparr>)"
  by (simp add: getOrCreateSession_def getSession_def createSession_def call_def new_handle_def
      w_fresh_def ok_answer_def timeoutMs_def Let_def)


theorem getSession_updates_lastActivity_witness:
  "map_of (sessions (snd (getOrCreateSession w_fresh ''u1''))) ''u1'' \<noteq> None
   \<and> fst (hasActiveSession ((snd (getOrCreateSession w_fresh ''u1''))\<lparr>clock := 900000\<rparr>) ''u1'')
   \<and> map_option lastActivity
        (map_of (sessions (snd (hasActiveSession
           ((snd (getOrCreateSession w_fresh ''u1''))\<lparr>clock := 900000\<rparr>) ''u1''))) ''u1'')
      = Some 900000"
proof -
  let ?w = "(snd (getOrCreateSession w_fresh ''u1''))\<lparr>clock := 900000\<rparr>"
  have h: "map_of (sessions ?w) ''u1'' =
             Some \<lparr>browser = 0, page = 1, isLoggedIn = False, createdAt = 3000,
                   lastActivity = 3000, userId = ''u1'', sessionId = (''u1'', 3000)\<rparr>"
    by (simp add: first_request)
  have c: "clock ?w = 900000" by simp
  show ?thesis
    using getSession_updates_lastActivity [OF h] h c by simp
qed

text \<open>
  The pieces of a request, run with nothing in between, are \<^verbatim>\<open>getOrCreateSession\<close>; so
  two requests of which the second starts when the first has returned are two calls of it,
  one after the other.
\<close>

lemma interleave_alone:
  "interleave w [Called uid] [0, 0, 0, 0, 0, 0] =
     ([Returned (fst (getOrCreateSession w uid))], snd (getOrCreateSession w uid))"
  by (simp add: getOrCreateSession_def createSession_def Let_def
      split: prod.splits sum.splits option.splits)

lemma interleave_first_alone:
  "interleave w [Called uid, rq] ([0, 0, 0, 0, 0, 0] @ schedule) =
     interleave (snd (getOrCreateSession w uid))
       [Returned (fst (getOrCreateSession w uid)), rq] schedule"
  by (simp add: getOrCreateSession_def createSession_def Let_def
      split: prod.splits sum.splits option.splits)

lemma interleave_second_alone:
  "interleave w [rq, Called uid] [1, 1, 1, 1, 1, 1] =
     ([rq, Returned (fst (getOrCreateSession w uid))], snd (getOrCreateSession w uid))"
  by (simp add: getOrCreateSession_def createSession_def Let_def
      split: prod.splits sum.splits option.splits)

lemma interleave_one_after_another:
  "interleave w [Called uid, Called v] [0, 0, 0, 0, 0, 0, 1, 1, 1, 1, 1, 1] =
     ([Returned (fst (getOrCreateSession w uid)),
       Returned (fst (getOrCreateSession (snd (getOrCreateSession w uid)) v))],
      snd (getOrCreateSession (snd (getOrCreateSession w uid)) v))"
  using interleave_first_alone [of w uid "Called v" "[1, 1, 1, 1, 1, 1]"]
  by (simp only: append.simps interleave_second_alone)



section \<open>Automation runner (LinkedInAutomationService)\<close>

record run_args =
  arg_browser :: nat
  arg_page :: nat
  arg_campaign :: Campaign
  arg_accountData :: LinkedInAccount

text \<open>
  A synchronous getter of the page (\<^verbatim>\<open>isClosed()\<close>, \<^verbatim>\<open>url()\<close>) reads the next answer
  and does not throw; a browser that is gone reports a closed page with no location.
\<close>

definition gone_answer :: answer where
  "gone_answer =
     \<lparr>elapsed = 0, thrown = Some target_closed, flag = True, text_val = [], people = []\<rparr>"

definition query :: "world \<Rightarrow> answer \<times> world" where
  "query w =
     (case script w of
        [] \<Rightarrow> (gone_answer, w)
      | a # rest \<Rightarrow> (a, w\<lparr>clock := clock w + elapsed a, script := rest\<rparr>))"

text \<open>
  \<^verbatim>\<open>SupabaseService.logActivity\<close>: inserts the record with the current time; an error of
  the insert is logged and swallowed.
\<close>

definition logActivity :: "world \<Rightarrow> ActivityLogData \<Rightarrow> world" where
  "logActivity w activityData =
     (if failing (database w) T_activity_logs Insert then w
      else w\<lparr>database := (database w)
             \<lparr>activity_logs := activity_logs (database w) @ [(activityData, clock w)]\<rparr>\<rparr>)"

definition startedRecord :: "Campaign \<Rightarrow> string \<Rightarrow> ActivityLogData" where
  "startedRecord campaign currentUrl =
     \<lparr>log_user_id = c_user_id campaign, log_campaign_id = c_id campaign,
      log_job_type = ''automation'', log_level = Info,
      log_message = ''LinkedIn automation session started'',
      log_context = [(''url'', JString currentUrl)]\<rparr>"

definition completedRecord :: "Campaign \<Rightarrow> ActivityLogData" where
  "completedRecord campaign =
     \<lparr>log_user_id = c_user_id campaign, log_campaign_id = c_id campaign,
      log_job_type = ''automation'', log_level = Info,
      log_message = ''LinkedIn automation completed successfully'',
      log_context = []\<rparr>"

definition failedRecord :: "Campaign \<Rightarrow> js_error \<Rightarrow> ActivityLogData" where
  "failedRecord campaign error =
     \<lparr>log_user_id = c_user_id campaign, log_campaign_id = c_id campaign,
      log_job_type = ''automation'', log_level = Error,
      log_message = ''LinkedIn automation failed: '' @ err_message error,
      log_context =
        [(''error'', JObject [(''name'', JString (err_name error)),
                             (''message'', JString (err_message error)),
                             (''stack'', JString (err_stack error))])]\<rparr>"

text \<open>
  The first part of the \<^verbatim>\<open>try\<close> block of \<^verbatim>\<open>runWithLogin\<close>: get the session of the
  user or create it, then replace it when its page is closed.
\<close>

definition obtainSession :: "world \<Rightarrow> user_id \<Rightarrow> (js_error + BrowserSessionInfo) \<times> world" where
  "obtainSession w uid =
     (case (case getSession w uid of
              (None, w1) \<Rightarrow> createSession w1 uid
            | (Some session, w1) \<Rightarrow> (Inr session, updateSessionActivity w1 uid)) of
        (Inl e, w2) \<Rightarrow> (Inl e, w2)
      | (Inr session, w2) \<Rightarrow>
          (let (closed, w3) = query w2 in
           if flag closed then createSession (closeSession w3 uid) uid
           else (Inr session, w3)))"

definition runWithLogin ::
  "world \<Rightarrow> Campaign \<Rightarrow> LinkedInAccount \<Rightarrow>
   (run_args \<Rightarrow> world \<Rightarrow> (js_error + 'a) \<times> world) \<Rightarrow> (js_error + 'a) \<times> world" where
  "runWithLogin w campaign accountData runFn =
     (case obtainSession w (c_user_id campaign) of
        (Inl error, w1) \<Rightarrow> (Inl error, logActivity w1 (failedRecord campaign error))
      | (Inr session, w1) \<Rightarrow>
          (let (u, w2) = query w1;
               currentUrl = text_val u;
               w3 = logActivity w2 (startedRecord campaign currentUrl)
           in case runFn \<lparr>arg_browser = browser session, arg_page = page session,
                          arg_campaign = campaign, arg_accountData = accountData\<rparr> w3 of
                (Inr result, w4) \<Rightarrow> (Inr result, logActivity w4 (completedRecord campaign))
              | (Inl error, w4) \<Rightarrow> (Inl error, logActivity w4 (failedRecord campaign error))))"

text \<open>The record that closes an invocation, and the arguments handed to the action.\<close>

definition finalRecord :: "Campaign \<Rightarrow> (js_error + 'a) \<Rightarrow> ActivityLogData" where
  "finalRecord campaign r =
     (case r of Inr result \<Rightarrow> completedRecord campaign
              | Inl error \<Rightarrow> failedRecord campaign error)"

definition argsOf :: "BrowserSessionInfo \<Rightarrow> Campaign \<Rightarrow> LinkedInAccount \<Rightarrow> run_args" where
  "argsOf session campaign accountData =
     \<lparr>arg_browser = browser session, arg_page = page session,
      arg_campaign = campaign, arg_accountData = accountData\<rparr>"

section \<open>Properties of the automation runner\<close>

lemma logActivity_rows:
  "\<not> failing (database w) T_activity_logs Insert \<Longrightarrow>
     activity_logs (database (logActivity w a)) = activity_logs (database w) @ [(a, clock w)]"
  by (simp add: logActivity_def)

text \<open>
  C8 (as amended).  In an invocation of \<^verbatim>\<open>runWithLogin\<close> that obtains a session, the
  "started" record is logged, then the action runs (in a world that has that record), then
  exactly one more record is logged: "completed" when the action returned, "failed" when it
  threw; the invocation returns what the action returned, or throws the very error the
  action threw.  In an invocation in which obtaining the session throws, the action does
  not run, no "started" record is logged, the "failed" record of that error is logged and
  the error is rethrown.  Logging a record appends it to the activity log unless the insert
  errors, which is swallowed.
\<close>

theorem runWithLogin_brackets_action:
  assumes "obtainSession w (c_user_id campaign) = (sr, w1)"
      and "query w1 = (u, w2)"
      and "w3 = logActivity w2 (startedRecord campaign (text_val u))"
  shows "(\<forall>e. sr = Inl e \<longrightarrow>
            runWithLogin w campaign accountData runFn =
              (Inl e, logActivity w1 (failedRecord campaign e)))
     \<and> (\<forall>session. sr = Inr session \<longrightarrow>
            runWithLogin w campaign accountData runFn =
              (fst (runFn (argsOf session campaign accountData) w3),
               logActivity (snd (runFn (argsOf session campaign accountData) w3))
                 (finalRecord campaign (fst (runFn (argsOf session campaign accountData) w3)))))
     \<and> (\<not> failing (database w2) T_activity_logs Insert \<longrightarrow>
            activity_logs (database w3) =
              activity_logs (database w2) @ [(startedRecord campaign (text_val u), clock w2)])
     \<and> (\<forall>w4 a. \<not> failing (database w4) T_activity_logs Insert \<longrightarrow>
            activity_logs (database (logActivity w4 a)) =
              activity_logs (database w4) @ [(a, clock w4)])"
  using assms
  by (auto simp add: runWithLogin_def argsOf_def finalRecord_def logActivity_rows Let_def
      split: prod.splits sum.splits)

text \<open>
  Two environments: one in which the browser starts and shows the feed, one in which it
  cannot be launched; a campaign, an account and an action that returns 7.
\<close>

definition open_answer :: answer where
  "open_answer =
     \<lparr>elapsed = 10, thrown = None, flag = False,
      text_val = ''https://www.linkedin.com/feed/'', people = []\<rparr>"

definition w_login :: world where
  "w_login = w_fresh\<lparr>script := [ok_answer, ok_answer, ok_answer, ok_answer,
                                 open_answer, open_answer]\<rparr>"

definition w_down :: world where
  "w_down = w_fresh\<lparr>script := []\<rparr>"

definition camp1 :: Campaign where
  "camp1 =
     \<lparr>c_id = ''c1'', c_user_id = ''u1'', c_name = ''first'',
      linkedin_url = ''https://www.linkedin.com/search/results/people/'',
      campaign_type = Some Search, status = Some Active, total_profiles = 100,
      processed_profiles = 0, connection_note = None\<rparr>"

definition acct1 :: LinkedInAccount where
  "acct1 = \<lparr>a_id = ''a1'', a_user_id = ''u1'', email = ''u1@example.org'',
            password = ''secret'', is_active = True\<rparr>"

definition noop_action :: "run_args \<Rightarrow> world \<Rightarrow> (js_error + nat) \<times> world" where
  "noop_action args w = (Inr 7, w)"

text \<open>
  C8 as stated fails: when the browser cannot be launched, the invocation logs no "started"
  record; the activity log holds the "failed" record alone.
\<close>

theorem runWithLogin_started_counterexample:
  "fst (runWithLogin w_down camp1 acct1 noop_action) = Inl target_closed
   \<and> activity_logs (database (snd (runWithLogin w_down camp1 acct1 noop_action))) =
       [(failedRecord camp1 target_closed, 0)]"
  by (simp add: runWithLogin_def obtainSession_def getSession_def createSession_def call_def
      w_down_def w_fresh_def camp1_def logActivity_def db_overrun_def empty_db_def)

lemma obtainSession_w_login:
  "obtainSession w_login ''u1'' =
     (Inr \<lparr>browser = 0, page = 1, isLoggedIn = False, createdAt = 3000, lastActivity = 3000,
           userId = ''u1'', sessionId = (''u1'', 3000)\<rparr>,
      \<lparr>database = db_overrun,
       sessions = [(''u1'', \<lparr>browser = 0, page = 1, isLoggedIn = False, createdAt = 3000,
                     lastActivity = 3000, userId = ''u1'', sessionId = (''u1'', 3000)\<rparr>)],
       timers = [(1204000, ''u1'')], clock = 4010, script = [open_answer], next_handle = 2,
       queue = empty_queue\<rparr>)"
  by (simp add: obtainSession_def getSession_def createSession_def call_def new_handle_def
      query_def w_login_def w_fresh_def ok_answer_def open_answer_def timeoutMs_def Let_def)

theorem runWithLogin_brackets_action_witness:
  "fst (runWithLogin w_login camp1 acct1 noop_action) = Inr 7
   \<and> map fst (activity_logs (database (snd (runWithLogin w_login camp1 acct1 noop_action)))) =
       [startedRecord camp1 ''https://www.linkedin.com/feed/'', completedRecord camp1]"
proof -
  let ?w1 = "snd (obtainSession w_login ''u1'')"
  have o: "obtainSession w_login (c_user_id camp1) = (fst (obtainSession w_login ''u1''), ?w1)"
    by (simp add: camp1_def)
  have q: "query ?w1 = (open_answer, ?w1\<lparr>clock := 4020, script := []\<rparr>)"
    by (simp add: obtainSession_w_login query_def open_answer_def)
  show ?thesis
    using runWithLogin_brackets_action [OF o q refl, of acct1 noop_action]
    by (simp add: obtainSession_w_login noop_action_def finalRecord_def logActivity_def
        db_overrun_def empty_db_def open_answer_def)
qed

section \<open>Pending jobs (LinkedInSettingsService)\<close>

definition create_failed :: js_error where
  "create_failed =
     \<lparr>err_name = ''Error'', err_message = ''Failed to create pending job'', err_stack = []\<rparr>"

text \<open>
  \<^verbatim>\<open>createPendingJob\<close>: inserts a row with retry count 0 and 3 retries at most; the
  database gives the row its id; an error of the insert is thrown as a new error.
\<close>

definition createPendingJob ::
  "db \<Rightarrow> timestamp \<Rightarrow> user_id \<Rightarrow> campaign_id \<Rightarrow> pending_job_type \<Rightarrow> action_type \<Rightarrow> int
   \<Rightarrow> (js_error + unit) \<times> db" where
  "createPendingJob d now uid campaignId jobType actType requested =
     (if failing d T_pending_jobs Insert then (Inl create_failed, d)
      else (Inr (),
            d\<lparr>pending_jobs := pending_jobs d @
                 [\<lparr>pj_id = next_row_id d, user_id = uid, campaign_id = campaignId,
                   job_type = jobType, action_type = actType, requested_count = requested,
                   created_at = now, retry_count = 0, max_retries = 3\<rparr>],
              next_row_id := Suc (next_row_id d)\<rparr>))"

text \<open>
  \<^verbatim>\<open>getProcessablePendingJobs\<close>: the rows with \<^verbatim>\<open>retry_count <= 3\<close>, oldest first; no
  rows when the select errors.  (The database does not fix the order of rows of the same
  age; the sort used here keeps them in table order.)
\<close>

definition getProcessablePendingJobs :: "db \<Rightarrow> PendingJob list" where
  "getProcessablePendingJobs d =
     (if failing d T_pending_jobs Select then []
      else sort_key created_at (filter (\<lambda>j. retry_count j \<le> 3) (pending_jobs d)))"

definition completePendingJob :: "db \<Rightarrow> nat \<Rightarrow> db" where
  "completePendingJob d jobId =
     (if failing d T_pending_jobs Delete then d
      else d\<lparr>pending_jobs := filter (\<lambda>j. pj_id j \<noteq> jobId) (pending_jobs d)\<rparr>)"

definition cleanupOldPendingJobs :: "db \<Rightarrow> timestamp \<Rightarrow> db" where
  "cleanupOldPendingJobs d now =
     (if failing d T_pending_jobs Delete then d
      else d\<lparr>pending_jobs :=
              filter (\<lambda>j. \<not> int (created_at j) < int now - 3 * 24 * 60 * 60 * 1000)
                (pending_jobs d)\<rparr>)"

section \<open>Job queue (QueueService)\<close>

definition queue_unavailable :: js_error where
  "queue_unavailable =
     \<lparr>err_name = ''Error'', err_message = ''Connection is closed.'', err_stack = []\<rparr>"

text \<open>
  \<^verbatim>\<open>addJob\<close>: \<^verbatim>\<open>queue.add\<close> gives the job a fresh id and puts it among the waiting jobs
  of the one queue \<^verbatim>\<open>linkedin-automation\<close>, under the name of its job type; it throws when
  the store cannot be reached.
\<close>

definition addJob ::
  "world \<Rightarrow> jobType \<Rightarrow> user_id \<Rightarrow> campaign_id \<Rightarrow> payload option \<Rightarrow> (js_error + Job) \<times> world" where
  "addJob w jt uid campaignId dat =
     (if unavailable (queue w) then (Inl queue_unavailable, w)
      else
        (let jobData = \<lparr>jd_userId = uid, jd_campaignId = campaignId, jd_jobType = jt,
                        jd_data = dat\<rparr>;
             job = \<lparr>job_id = next_job_id (queue w), job_name = jt, job_data = jobData,
                    job_state = JWaiting, attemptsMade = 0, failedReason = None\<rparr>
         in (Inr job,
             w\<lparr>queue := (queue w)\<lparr>jobs := jobs (queue w) @ [job],
                                   next_job_id := Suc (next_job_id (queue w))\<rparr>\<rparr>)))"

definition addFollowRequestJob ::
  "world \<Rightarrow> user_id \<Rightarrow> campaign_id \<Rightarrow> payload option \<Rightarrow> (js_error + Job) \<times> world" where
  "addFollowRequestJob w uid campaignId dat = addJob w FollowRequest uid campaignId dat"

definition addFollowResponseJob ::
  "world \<Rightarrow> user_id \<Rightarrow> campaign_id \<Rightarrow> payload option \<Rightarrow> (js_error + Job) \<times> world" where
  "addFollowResponseJob w uid campaignId dat = addJob w FollowResponse uid campaignId dat"

section \<open>Scheduler (SchedulerService)\<close>

definition no_payload :: payload where
  "no_payload =
     \<lparr>pl_importLimit = None, pl_maxDurationMs = None, pl_pendingJobId = None, pl_actionType = None,
      pl_requestedCount = None\<rparr>"

definition pendingPayload :: "PendingJob \<Rightarrow> payload" where
  "pendingPayload pendingJob =
     no_payload\<lparr>pl_pendingJobId := Some (pj_id pendingJob),
                pl_actionType := Some (action_type pendingJob),
                pl_requestedCount := Some (requested_count pendingJob)\<rparr>"

text \<open>
  The loop of \<^verbatim>\<open>processPendingJobs\<close>: one job per pending job; an error of
  \<^verbatim>\<open>addJob\<close> is caught and logged, and the loop goes on.
\<close>

fun enqueuePending :: "world \<Rightarrow> PendingJob list \<Rightarrow> world" where
  "enqueuePending w [] = w"
| "enqueuePending w (pendingJob # rest) =
     enqueuePending
       (snd (addJob w ProcessPendingJobs (user_id pendingJob) ''system''
               (Some (pendingPayload pendingJob))))
       rest"

definition processPendingJobs :: "world \<Rightarrow> world" where
  "processPendingJobs w =
     (let pendingJobs = getProcessablePendingJobs (database w) in
      if pendingJobs = [] then w else enqueuePending w pendingJobs)"

definition pendingJobData :: "PendingJob \<Rightarrow> JobData" where
  "pendingJobData pendingJob =
     \<lparr>jd_userId = user_id pendingJob, jd_campaignId = ''system'',
      jd_jobType = ProcessPendingJobs, jd_data = Some (pendingPayload pendingJob)\<rparr>"

section \<open>Properties of the reconciliation pass\<close>

lemma addJob_database: "database (snd (addJob w jt uid cid dat)) = database w"
  by (simp add: addJob_def Let_def)

lemma addJob_unavailable:
  "unavailable (queue (snd (addJob w jt uid cid dat))) = unavailable (queue w)"
  by (simp add: addJob_def Let_def)

lemma enqueuePending_database: "database (enqueuePending w pjs) = database w"
  by (induction pjs arbitrary: w) (simp_all add: addJob_database)

lemma enqueuePending_down:
  "unavailable (queue w) \<Longrightarrow> enqueuePending w pjs = w"
  by (induction pjs arbitrary: w) (simp_all add: addJob_def)

lemma enqueuePending_up:
  "\<not> unavailable (queue w) \<Longrightarrow>
     map job_data (jobs (queue (enqueuePending w pjs))) =
       map job_data (jobs (queue w)) @ map pendingJobData pjs
     \<and> map job_state (jobs (queue (enqueuePending w pjs))) =
       map job_state (jobs (queue w)) @ map (\<lambda>j. JWaiting) pjs"
proof (induction pjs arbitrary: w)
  case Nil
  then show ?case by simp
next
  case (Cons j pjs)
  let ?w1 = "snd (addJob w ProcessPendingJobs (user_id j) ''system'' (Some (pendingPayload j)))"
  have u: "\<not> unavailable (queue ?w1)"
    using Cons.prems by (simp add: addJob_unavailable)
  have q: "jobs (queue ?w1) = jobs (queue w) @
             [\<lparr>job_id = next_job_id (queue w), job_name = ProcessPendingJobs,
               job_data = pendingJobData j, job_state = JWaiting, attemptsMade = 0,
               failedReason = None\<rparr>]"
    using Cons.prems by (simp add: addJob_def pendingJobData_def Let_def)
  show ?case using Cons.IH [OF u] q by simp
qed

text \<open>
  C6 (as amended).  The reconciliation selects exactly the pending jobs whose retry count is
  at most 3 (none when the select errors), so a job whose retry count has passed 3 is never
  re-enqueued; each selected job is put on the queue, in the order selected, as a waiting
  \<^verbatim>\<open>processPendingJobs\<close> job of its user carrying its id, its resource kind and its
  requested amount (no job is added when the queue cannot be reached).  The pass leaves the
  tables as they are.
\<close>

theorem processPendingJobs_selection:
  "set (getProcessablePendingJobs d) =
      (if failing d T_pending_jobs Select then {}
       else {j \<in> set (pending_jobs d). retry_count j \<le> 3})
   \<and> map job_data (jobs (queue (processPendingJobs w))) =
       map job_data (jobs (queue w)) @
         (if unavailable (queue w) then []
          else map pendingJobData (getProcessablePendingJobs (database w)))
   \<and> map job_state (jobs (queue (processPendingJobs w))) =
       map job_state (jobs (queue w)) @
         (if unavailable (queue w) then []
          else map (\<lambda>j. JWaiting) (getProcessablePendingJobs (database w)))
   \<and> pl_actionType (pendingPayload j) = Some (action_type j)
   \<and> pl_requestedCount (pendingPayload j) = Some (requested_count j)
   \<and> pl_pendingJobId (pendingPayload j) = Some (pj_id j)
   \<and> database (processPendingJobs w) = database w"
proof -
  have s: "set (getProcessablePendingJobs d) =
      (if failing d T_pending_jobs Select then {}
       else {j \<in> set (pending_jobs d). retry_count j \<le> 3})"
    by (auto simp add: getProcessablePendingJobs_def)
  have q: "map job_data (jobs (queue (processPendingJobs w))) =
       map job_data (jobs (queue w)) @
         (if unavailable (queue w) then []
          else map pendingJobData (getProcessablePendingJobs (database w)))"
    using enqueuePending_up [of w "getProcessablePendingJobs (database w)"]
      enqueuePending_down [of w "getProcessablePendingJobs (database w)"]
    by (auto simp add: processPendingJobs_def Let_def)
  have t: "map job_state (jobs (queue (processPendingJobs w))) =
       map job_state (jobs (queue w)) @
         (if unavailable (queue w) then []
          else map (\<lambda>j. JWaiting) (getProcessablePendingJobs (database w)))"
    using enqueuePending_up [of w "getProcessablePendingJobs (database w)"]
      enqueuePending_down [of w "getProcessablePendingJobs (database w)"]
    by (auto simp add: processPendingJobs_def Let_def)
  have d: "database (processPendingJobs w) = database w"
    by (simp add: processPendingJobs_def Let_def enqueuePending_database)
  show ?thesis using s q t d by (simp add: pendingPayload_def no_payload_def)
qed

text \<open>
  A table of pending jobs of user \<open>u1\<close>: one never retried, one retried 3 times (its
  maximum), one retried 4 times.
\<close>

definition pj :: "nat \<Rightarrow> int \<Rightarrow> PendingJob" where
  "pj n retries =
     \<lparr>pj_id = n, user_id = ''u1'', campaign_id = ''c1'', job_type = FollowRequestPJ,
      action_type = Connections, requested_count = 10, created_at = 1000 + n,
      retry_count = retries, max_retries = 3\<rparr>"

definition w_pending :: world where
  "w_pending =
     w_fresh\<lparr>database := empty_db\<lparr>pending_jobs := [pj 7 0, pj 8 3, pj 9 4]\<rparr>\<rparr>"

lemma processable_w_pending:
  "getProcessablePendingJobs (database w_pending) = [pj 7 0, pj 8 3]"
  by (simp add: getProcessablePendingJobs_def w_pending_def empty_db_def pj_def)

lemma first_pass_w_pending:
  "map job_data (jobs (queue (processPendingJobs w_pending))) =
     [pendingJobData (pj 7 0), pendingJobData (pj 8 3)]"
  using enqueuePending_up [of w_pending "[pj 7 0, pj 8 3]"]
  by (simp add: processPendingJobs_def processable_w_pending)
     (simp add: w_pending_def w_fresh_def empty_queue_def)

theorem processPendingJobs_selection_witness:
  "map job_data (jobs (queue (processPendingJobs w_pending))) =
     [pendingJobData (pj 7 0), pendingJobData (pj 8 3)]
   \<and> pl_requestedCount (pendingPayload (pj 7 0)) = Some 10"
  using processPendingJobs_selection [of "database w_pending" w_pending "pj 7 0"]
  by (simp add: processable_w_pending)
     (simp add: w_pending_def w_fresh_def empty_queue_def pj_def)

text \<open>
  C6 as stated fails: the job retried 3 times is not strictly under its maximum of 3
  retries, and the reconciliation selects and re-enqueues it.
\<close>

theorem processPendingJobs_selection_counterexample:
  "\<not> retry_count (pj 8 3) < max_retries (pj 8 3)
   \<and> pj 8 3 \<in> set (getProcessablePendingJobs (database w_pending))
   \<and> pendingJobData (pj 8 3) \<in> set (map job_data (jobs (queue (processPendingJobs w_pending))))"
proof -
  have a: "\<not> retry_count (pj 8 3) < max_retries (pj 8 3)" by (simp add: pj_def)
  show ?thesis using a by (simp add: processable_w_pending first_pass_w_pending)
qed

text \<open>
  C5 at a failing input: two runs of the reconciliation with nothing in between.  The
  pending jobs are all still in the table after the first run, and the second run enqueues
  the work of each selected pending job a second time.
\<close>

theorem processPendingJobs_twice:
  "pending_jobs (database (processPendingJobs w_pending)) = [pj 7 0, pj 8 3, pj 9 4]
   \<and> map job_data (jobs (queue (processPendingJobs (processPendingJobs w_pending)))) =
       [pendingJobData (pj 7 0), pendingJobData (pj 8 3),
        pendingJobData (pj 7 0), pendingJobData (pj 8 3)]"
proof -
  have d: "database (processPendingJobs w_pending) = database w_pending"
    by (simp add: processPendingJobs_def Let_def enqueuePending_database)
  have p: "getProcessablePendingJobs (database (processPendingJobs w_pending)) = [pj 7 0, pj 8 3]"
    using d processable_w_pending by simp
  have u: "\<not> unavailable (queue (processPendingJobs w_pending))"
    by (simp add: processPendingJobs_def processable_w_pending addJob_unavailable)
       (simp add: w_pending_def w_fresh_def empty_queue_def)
  note q1 = first_pass_w_pending
  have q2: "map job_data (jobs (queue (processPendingJobs (processPendingJobs w_pending)))) =
              map job_data (jobs (queue (processPendingJobs w_pending))) @
                [pendingJobData (pj 7 0), pendingJobData (pj 8 3)]"
    using enqueuePending_up [OF u, of "[pj 7 0, pj 8 3]"] p
    by (simp add: processPendingJobs_def [of "processPendingJobs w_pending"])
  show ?thesis using d q1 q2 by (simp add: w_pending_def)
qed

section \<open>Worker pool (WorkerService)\<close>

text \<open>
  A processor is what \<^verbatim>\<open>WorkerService\<close> gets injected: \<^verbatim>\<open>process(job)\<close> returns or
  throws.  \<^verbatim>\<open>createWorkers\<close> builds two BullMQ workers, both on the queue
  \<^verbatim>\<open>linkedin-automation\<close>; the handler of each runs its processor when the job has the
  handler's job type and otherwise returns at once.
\<close>

type_synonym processor = "Job \<Rightarrow> world \<Rightarrow> (js_error + unit) \<times> world"

definition followRequestHandler :: "processor \<Rightarrow> processor" where
  "followRequestHandler followRequestProcessor job w =
     (if jd_jobType (job_data job) = FollowRequest then followRequestProcessor job w
      else (Inr (), w))"

definition followResponseHandler :: "processor \<Rightarrow> processor" where
  "followResponseHandler followResponseProcessor job w =
     (if jd_jobType (job_data job) = FollowResponse then followResponseProcessor job w
      else (Inr (), w))"

definition createWorkers :: "processor \<Rightarrow> processor \<Rightarrow> processor list" where
  "createWorkers followRequestProcessor followResponseProcessor =
     [followRequestHandler followRequestProcessor,
      followResponseHandler followResponseProcessor]"

text \<open>
  One cycle of a BullMQ worker (library behaviour, as the queue's contract has it): the
  worker takes the oldest waiting job of its queue, whatever the job's name, makes it
  active and runs its handler on it; when the handler returns the job is completed, when
  it throws the job is delayed for a retry while attempts remain (3 by the queue's
  default options) and failed otherwise.
\<close>

definition attempts :: nat where
  "attempts = 3"

definition updateJob :: "world \<Rightarrow> nat \<Rightarrow> (Job \<Rightarrow> Job) \<Rightarrow> world" where
  "updateJob w jid f =
     w\<lparr>queue := (queue w)\<lparr>jobs := map (\<lambda>j. if job_id j = jid then f j else j)
                                      (jobs (queue w))\<rparr>\<rparr>"

definition workerCycle :: "processor \<Rightarrow> world \<Rightarrow> world" where
  "workerCycle handler w =
     (case find (\<lambda>j. job_state j = JWaiting) (jobs (queue w)) of
        None \<Rightarrow> w
      | Some job \<Rightarrow>
          (let active = job\<lparr>job_state := JActive, attemptsMade := Suc (attemptsMade job)\<rparr>;
               w1 = updateJob w (job_id job) (\<lambda>j. active)
           in case handler active w1 of
                (Inr u, w2) \<Rightarrow> updateJob w2 (job_id job) (\<lambda>j. j\<lparr>job_state := JCompleted\<rparr>)
              | (Inl e, w2) \<Rightarrow>
                  updateJob w2 (job_id job)
                    (\<lambda>j. j\<lparr>job_state := (if attemptsMade active < attempts then JDelayed
                                          else JFailed),
                           failedReason := Some (err_message e)\<rparr>)))"

text \<open>
  A queue that holds one waiting job of type \<^verbatim>\<open>followResponse\<close>, and a processor that
  throws on every job.
\<close>

definition response_job :: Job where
  "response_job =
     \<lparr>job_id = 1, job_name = FollowResponse,
      job_data = \<lparr>jd_userId = ''u1'', jd_campaignId = ''system'', jd_jobType = FollowResponse,
                  jd_data = None\<rparr>,
      job_state = JWaiting, attemptsMade = 0, failedReason = None\<rparr>"

definition w_response :: world where
  "w_response = w_fresh\<lparr>queue := \<lparr>jobs = [response_job], next_job_id = 2, unavailable = False\<rparr>\<rparr>"

definition always_throws :: processor where
  "always_throws job w = (Inl target_closed, w)"

section \<open>Properties of the worker pool\<close>

lemma handler_skips_other_type:
  "jd_jobType (job_data job) \<noteq> FollowRequest \<Longrightarrow>
     followRequestHandler P job w = (Inr (), w)"
  by (simp add: followRequestHandler_def)

text \<open>
  C1 at a failing input: the follow-request worker takes the waiting
  \<^verbatim>\<open>followResponse\<close> job and completes it, though no processor ran it (the only
  processor at hand would have thrown); the follow-response worker, had it taken the job,
  would have run its processor.
\<close>

theorem worker_completes_unprocessed_job:
  "followRequestHandler always_throws \<in> set (createWorkers always_throws always_throws)
   \<and> workerCycle (followRequestHandler always_throws) w_response =
       w_response\<lparr>queue := \<lparr>jobs = [response_job\<lparr>job_state := JCompleted, attemptsMade := 1\<rparr>],
                            next_job_id = 2, unavailable = False\<rparr>\<rparr>
   \<and> map job_state (jobs (queue (workerCycle (followResponseHandler always_throws) w_response)))
       = [JDelayed]"
  by (simp add: createWorkers_def workerCycle_def followRequestHandler_def
      followResponseHandler_def updateJob_def w_response_def response_job_def always_throws_def
      attempts_def w_fresh_def Let_def)

section \<open>Follow-request processor: the automation\<close>

text \<open>
  The automation is written as a sequence of steps, each of which returns or throws and
  may change the world: \<open>andThen\<close> runs the next step on the value of the first unless the
  first threw, \<open>tryCatch\<close> hands a thrown error to a handler.  A step into the browser is
  \<open>call\<close>; which selector or address the step names does not matter to the scripted
  environment.  \<^verbatim>\<open>delay(ms)\<close> lets the clock advance.
\<close>

type_synonym 'a io = "world \<Rightarrow> (js_error + 'a) \<times> world"

definition ret :: "'a \<Rightarrow> 'a io" where
  "ret x w = (Inr x, w)"

definition throw :: "js_error \<Rightarrow> 'a io" where
  "throw e w = (Inl e, w)"

definition andThen :: "'a io \<Rightarrow> ('a \<Rightarrow> 'b io) \<Rightarrow> 'b io" where
  "andThen m f w = (case m w of (Inl e, w1) \<Rightarrow> (Inl e, w1) | (Inr x, w1) \<Rightarrow> f x w1)"

definition tryCatch :: "'a io \<Rightarrow> (js_error \<Rightarrow> 'a io) \<Rightarrow> 'a io" where
  "tryCatch m h w = (case m w of (Inl e, w1) \<Rightarrow> h e w1 | (Inr x, w1) \<Rightarrow> (Inr x, w1))"

definition effect :: "(world \<Rightarrow> world) \<Rightarrow> unit io" where
  "effect f w = (Inr (), f w)"

definition delay :: "nat \<Rightarrow> world \<Rightarrow> world" where
  "delay ms w = w\<lparr>clock := clock w + ms\<rparr>"

definition elapsedSince :: "world \<Rightarrow> timestamp \<Rightarrow> int" where
  "elapsedSince w startTime = int (clock w) - int startTime"

subsection \<open>Strings\<close>

text \<open>
  \<^verbatim>\<open>s.split(c)\<close> for a one-character separator, \<^verbatim>\<open>join\<close>, \<^verbatim>\<open>trim\<close>, and
  \<^verbatim>\<open>split(/\s+/)\<close>, over strings of 8-bit characters, of which the white space is the
  space, the tab, the line and page breaks and the no-break space (U+00A0);
  \<^verbatim>\<open>/pat(\d+)/\<close> finds the pattern followed by a digit somewhere in the string.
\<close>

fun splitOn :: "char \<Rightarrow> string \<Rightarrow> string list" where
  "splitOn c [] = [[]]"
| "splitOn c (x # xs) =
     (if x = c then [] # splitOn c xs
      else (case splitOn c xs of y # ys \<Rightarrow> (x # y) # ys | [] \<Rightarrow> [[x]]))"

fun joinWith :: "string \<Rightarrow> string list \<Rightarrow> string" where
  "joinWith sep [] = []"
| "joinWith sep [x] = x"
| "joinWith sep (x # y # ys) = x @ sep @ joinWith sep (y # ys)"

definition is_space :: "char \<Rightarrow> bool" where
  "is_space c \<longleftrightarrow>
     c \<in> set [CHR '' '', CHR 0x09, CHR 0x0A, CHR 0x0B, CHR 0x0C, CHR 0x0D, CHR 0xA0]"

definition trim :: "string \<Rightarrow> string" where
  "trim s = rev (dropWhile is_space (rev (dropWhile is_space s)))"

fun splitSpaces :: "string \<Rightarrow> string list" where
  "splitSpaces [] = [[]]"
| "splitSpaces (x # xs) =
     (if is_space x then
        (case xs of
           [] \<Rightarrow> [[], []]
         | y # ys \<Rightarrow> if is_space y then splitSpaces xs else [] # splitSpaces xs)
      else (case splitSpaces xs of y # ys \<Rightarrow> (x # y) # ys | [] \<Rightarrow> [[x]]))"

definition is_digit :: "char \<Rightarrow> bool" where
  "is_digit c \<longleftrightarrow> c \<in> set ''0123456789''"

fun matchAt :: "string \<Rightarrow> string \<Rightarrow> bool" where
  "matchAt [] s = (case s of c # cs \<Rightarrow> is_digit c | [] \<Rightarrow> False)"
| "matchAt (p # ps) s = (case s of c # cs \<Rightarrow> c = p \<and> matchAt ps cs | [] \<Rightarrow> False)"

fun matchesWithDigits :: "string \<Rightarrow> string \<Rightarrow> bool" where
  "matchesWithDigits pat [] = False"
| "matchesWithDigits pat (c # cs) = (matchAt pat (c # cs) \<or> matchesWithDigits pat cs)"

definition lastSegment :: "string \<Rightarrow> string" where
  "lastSegment s = (case rev (splitOn (CHR ''/'') s) of x # xs \<Rightarrow> x | [] \<Rightarrow> [])"

definition firstWord :: "string \<Rightarrow> string" where
  "firstWord s = (case splitOn (CHR '' '') s of x # xs \<Rightarrow> x | [] \<Rightarrow> [])"

definition otherWords :: "string \<Rightarrow> string" where
  "otherWords s = (case splitOn (CHR '' '') s of x # xs \<Rightarrow> joinWith '' '' xs | [] \<Rightarrow> [])"

definition stripTrailingSlashes :: "string \<Rightarrow> string" where
  "stripTrailingSlashes s = rev (dropWhile (\<lambda>c. c = CHR ''/'') (rev s))"

definition connectionName :: "person \<Rightarrow> string" where
  "connectionName p = joinWith '' '' (take 2 (splitSpaces (trim (name p))))"

subsection \<open>The tables the automation writes\<close>

definition countConnections :: "db \<Rightarrow> campaign_id \<Rightarrow> int" where
  "countConnections d cid =
     (if failing d T_linkedin_connections Select then 0
      else int (length (filter (\<lambda>r. lc_campaign_id (snd r) = cid) (linkedin_connections d))))"

text \<open>\<^verbatim>\<open>maybeSingle()\<close> gives data for exactly one matching row.\<close>

definition existingConnection :: "db \<Rightarrow> string \<Rightarrow> campaign_id \<Rightarrow> bool" where
  "existingConnection d purl cid \<longleftrightarrow>
     \<not> failing d T_linkedin_connections Select \<and>
     single (filter (\<lambda>r. profile_url (snd r) = purl \<and> lc_campaign_id (snd r) = cid)
               (linkedin_connections d)) \<noteq> None"

definition insertConnection :: "LinkedInConnection \<Rightarrow> world \<Rightarrow> world" where
  "insertConnection row w =
     (let d = database w in
      if failing d T_linkedin_connections Insert then w
      else w\<lparr>database := d\<lparr>linkedin_connections := linkedin_connections d @ [(next_row_id d, row)],
                             next_row_id := Suc (next_row_id d)\<rparr>\<rparr>)"

definition markSent :: "nat \<Rightarrow> world \<Rightarrow> world" where
  "markSent rid w =
     (let d = database w in
      if failing d T_linkedin_connections Update then w
      else w\<lparr>database := d\<lparr>linkedin_connections :=
                 map (\<lambda>r. if fst r = rid
                           then (fst r, (snd r)\<lparr>lc_status := CSent, requested_at := clock w\<rparr>)
                           else r)
                   (linkedin_connections d)\<rparr>\<rparr>)"

definition updateCampaignProcessedCount :: "campaign_id \<Rightarrow> int \<Rightarrow> world \<Rightarrow> world" where
  "updateCampaignProcessedCount cid n w =
     (let d = database w in
      if failing d T_linkedin_campaigns Update then w
      else w\<lparr>database := d\<lparr>linkedin_campaigns :=
                 map (\<lambda>c. if c_id c = cid then c\<lparr>processed_profiles := n\<rparr> else c)
                   (linkedin_campaigns d)\<rparr>\<rparr>)"

definition activity ::
  "Campaign \<Rightarrow> log_level \<Rightarrow> string \<Rightarrow> (string \<times> jvalue) list \<Rightarrow> ActivityLogData" where
  "activity campaign lvl msg ctx =
     \<lparr>log_user_id = c_user_id campaign, log_campaign_id = c_id campaign,
      log_job_type = ''followRequest'', log_level = lvl, log_message = msg,
      log_context = ctx\<rparr>"

subsection \<open>One profile\<close>

text \<open>
  The profile card and its two buttons: \<open>None\<close> when the card is not on the page, else
  whether the card has a follow button and whether it has a connect button.
\<close>

definition findButtons :: "(bool \<times> bool) option io" where
  "findButtons =
     andThen call (\<lambda>li1.
     andThen (if flag li1 then ret True else andThen call (\<lambda>li2. ret (flag li2))) (\<lambda>found.
     if \<not> found then ret None
     else andThen call (\<lambda>followBtn.
          andThen call (\<lambda>connectBtn.
          ret (Some (flag followBtn, flag connectBtn))))))"

definition sendWithNote :: "unit io" where
  "sendWithNote =
     andThen call (\<lambda>_.
     andThen call (\<lambda>_.
     andThen (effect (delay 5000)) (\<lambda>_.
     andThen call (\<lambda>_.
     andThen call (\<lambda>_.
     andThen call (\<lambda>_. ret ()))))))"

definition hasNote :: "Campaign \<Rightarrow> bool" where
  "hasNote campaign \<longleftrightarrow> (case connection_note campaign of Some n \<Rightarrow> n \<noteq> [] | None \<Rightarrow> False)"

definition withNoteMessage :: "person \<Rightarrow> string" where
  "withNoteMessage p = ''Your invitation with note has been sent to '' @ connectionName p @ ''.''"

definition withoutNoteMessage :: "person \<Rightarrow> string" where
  "withoutNoteMessage p =
     ''Your invitation without note has been sent to '' @ connectionName p @ ''.''"

definition followedMessage :: "person \<Rightarrow> string" where
  "followedMessage p = ''You have followed '' @ connectionName p @ ''.''"

text \<open>The click on a button of the card; gives the message for the activity log.\<close>

definition clickFollow :: "person \<Rightarrow> string io" where
  "clickFollow p =
     andThen call (\<lambda>_.
     andThen (effect (delay 5000)) (\<lambda>_. ret (followedMessage p)))"

definition clickConnect :: "Campaign \<Rightarrow> person \<Rightarrow> string io" where
  "clickConnect campaign p =
     andThen call (\<lambda>_.
     andThen (effect (delay 5000)) (\<lambda>_.
     andThen
       (if hasNote campaign
        then tryCatch (andThen sendWithNote (\<lambda>_. ret (withNoteMessage p)))
               (\<lambda>e. andThen call (\<lambda>_. ret (withoutNoteMessage p)))
        else andThen call (\<lambda>_. ret (withoutNoteMessage p)))
       (\<lambda>actionMessage.
     andThen (effect (delay 5000)) (\<lambda>_. ret actionMessage))))"

definition connectionRow :: "Campaign \<Rightarrow> person \<Rightarrow> timestamp \<Rightarrow> LinkedInConnection" where
  "connectionRow campaign p now =
     \<lparr>lc_campaign_id = c_id campaign, profile_url = url p, display_name = name p,
      first_name = firstWord (name p), last_name = otherWords (name p),
      lc_headline = headline p, current_company = company p, lc_status = CQueued,
      requested_at = now\<rparr>"

definition recordConnection :: "Campaign \<Rightarrow> person \<Rightarrow> string \<Rightarrow> bool io" where
  "recordConnection campaign p actionMessage =
     andThen (effect (\<lambda>w. insertConnection (connectionRow campaign p (clock w)) w)) (\<lambda>_.
     andThen (effect (\<lambda>w. logActivity w
                (activity campaign Info actionMessage [(''profile'', JString (url p))]))) (\<lambda>_.
     andThen (effect (delay 5000)) (\<lambda>_. ret True)))"

definition personSteps :: "person \<Rightarrow> Campaign \<Rightarrow> bool io" where
  "personSteps p campaign w =
     (if existingConnection (database w) (url p) (c_id campaign) then ret False w
      else if lastSegment (url p) = [] then ret False w
      else
        andThen findButtons (\<lambda>buttons.
          case buttons of
            None \<Rightarrow> ret False
          | Some (followBtn, connectBtn) \<Rightarrow>
              if followBtn
              then andThen (clickFollow p) (recordConnection campaign p)
              else if connectBtn
              then andThen (clickConnect campaign p) (recordConnection campaign p)
              else ret False) w)"

text \<open>
  \<^verbatim>\<open>processPersonConnection\<close>: any error of the steps is caught, logged as an activity
  and answered with false.
\<close>

definition processPersonConnection :: "person \<Rightarrow> Campaign \<Rightarrow> world \<Rightarrow> bool \<times> world" where
  "processPersonConnection p campaign w =
     (case personSteps p campaign w of
        (Inr processed, w1) \<Rightarrow> (processed, w1)
      | (Inl error, w1) \<Rightarrow>
          (False,
           logActivity w1
             (activity campaign Error ''Error processing profile of the contact''
                [(''error'', JString (err_message error)), (''profile'', JString (url p))])))"

subsection \<open>Profiles reached through a search\<close>

definition currentUrl :: "string io" where
  "currentUrl w = (case query w of (a, w1) \<Rightarrow> (Inr (text_val a), w1))"

definition viaSearchSteps :: "person \<Rightarrow> Campaign \<Rightarrow> bool io" where
  "viaSearchSteps p campaign =
     andThen call (\<lambda>_.
     andThen (effect (delay 2000)) (\<lambda>_.
     andThen currentUrl (\<lambda>pageUrl.
     andThen call (\<lambda>_.
     andThen (effect (delay 5000)) (\<lambda>_.
     andThen call (\<lambda>_.
     andThen call (\<lambda>results.
       if stripTrailingSlashes pageUrl \<in> set (map url (people results))
       then (\<lambda>w. case processPersonConnection (p\<lparr>url := stripTrailingSlashes pageUrl\<rparr>)
                          campaign w of
                   (processed, w1) \<Rightarrow> (Inr processed, w1))
       else ret False)))))))"

definition processPersonConnectionViaSearch ::
  "person \<Rightarrow> Campaign \<Rightarrow> world \<Rightarrow> bool \<times> world" where
  "processPersonConnectionViaSearch p campaign w =
     (case viaSearchSteps p campaign w of
        (Inr processed, w1) \<Rightarrow> (processed, w1)
      | (Inl error, w1) \<Rightarrow> (False, w1))"

definition sanitizeUrl :: "string \<Rightarrow> string" where
  "sanitizeUrl u = (case rev u of c # cs \<Rightarrow> if c = CHR ''/'' then rev cs else u | [] \<Rightarrow> u)"

definition csvSteps :: "nat \<times> LinkedInConnection \<Rightarrow> Campaign \<Rightarrow> bool io" where
  "csvSteps profile campaign =
     andThen call (\<lambda>_.
     andThen (effect (delay 5000)) (\<lambda>_.
     andThen call (\<lambda>_.
     andThen call (\<lambda>found.
       case find (\<lambda>p. url p = sanitizeUrl (profile_url (snd profile))) (people found) of
         None \<Rightarrow> ret False
       | Some match \<Rightarrow>
           (\<lambda>w. case processPersonConnection match campaign w of
                   (success, w1) \<Rightarrow>
                     (Inr success, if success then markSent (fst profile) w1 else w1))))))"

definition processCsvProfile ::
  "nat \<times> LinkedInConnection \<Rightarrow> Campaign \<Rightarrow> world \<Rightarrow> bool \<times> world" where
  "processCsvProfile profile campaign w =
     (case csvSteps profile campaign w of
        (Inr success, w1) \<Rightarrow> (success, w1)
      | (Inl error, w1) \<Rightarrow> (False, w1))"

definition nextPageSteps :: "bool io" where
  "nextPageSteps =
     andThen call (\<lambda>_.
     andThen (effect (delay 2000)) (\<lambda>_.
     andThen call (\<lambda>nextBtn.
       if \<not> flag nextBtn then ret False
       else andThen call (\<lambda>disabled.
              if flag disabled then ret False
              else andThen call (\<lambda>_.
                   andThen (effect (delay 1000)) (\<lambda>_. ret True))))))"

definition goToNextPage :: "world \<Rightarrow> bool \<times> world" where
  "goToNextPage w =
     (case nextPageSteps w of
        (Inr hasNext, w1) \<Rightarrow> (hasNext, w1)
      | (Inl error, w1) \<Rightarrow> (False, w1))"

subsection \<open>The loops over the people of a page\<close>

fun forEachPerson ::
  "Campaign \<Rightarrow> int \<Rightarrow> int \<Rightarrow> timestamp \<Rightarrow> person list \<Rightarrow> int \<Rightarrow> world \<Rightarrow> int \<times> world" where
  "forEachPerson campaign importLimit maxDurationMs startTime [] followed w = (followed, w)"
| "forEachPerson campaign importLimit maxDurationMs startTime (p # rest) followed w =
     (if followed \<ge> importLimit \<or> elapsedSince w startTime > maxDurationMs then (followed, w)
      else
        (case processPersonConnection p campaign w of
           (processed, w1) \<Rightarrow>
             if processed
             then forEachPerson campaign importLimit maxDurationMs startTime rest (followed + 1)
                    (updateCampaignProcessedCount (c_id campaign) (followed + 1) w1)
             else forEachPerson campaign importLimit maxDurationMs startTime rest followed w1))"

fun forEachReactor ::
  "Campaign \<Rightarrow> int \<Rightarrow> int \<Rightarrow> timestamp \<Rightarrow> person list \<Rightarrow> int \<Rightarrow> world \<Rightarrow> int \<times> world" where
  "forEachReactor campaign importLimit maxDurationMs startTime [] followed w = (followed, w)"
| "forEachReactor campaign importLimit maxDurationMs startTime (p # rest) followed w =
     (if followed \<ge> importLimit \<or> elapsedSince w startTime \<ge> maxDurationMs then (followed, w)
      else
        (case processPersonConnectionViaSearch p campaign w of
           (processed, w1) \<Rightarrow>
             if processed
             then forEachReactor campaign importLimit maxDurationMs startTime rest (followed + 1)
                    (updateCampaignProcessedCount (c_id campaign) (followed + 1) w1)
             else forEachReactor campaign importLimit maxDurationMs startTime rest followed w1))"

fun forEachCsvProfile ::
  "Campaign \<Rightarrow> int \<Rightarrow> timestamp \<Rightarrow> (nat \<times> LinkedInConnection) list \<Rightarrow> int \<Rightarrow> world
   \<Rightarrow> int \<times> world" where
  "forEachCsvProfile campaign maxDurationMs startTime [] followed w = (followed, w)"
| "forEachCsvProfile campaign maxDurationMs startTime (profile # rest) followed w =
     (if elapsedSince w startTime > maxDurationMs then (followed, w)
      else
        (case processCsvProfile profile campaign w of
           (processed, w1) \<Rightarrow>
             if processed
             then forEachCsvProfile campaign maxDurationMs startTime rest (followed + 1)
                    (updateCampaignProcessedCount (c_id campaign) (followed + 1) w1)
             else forEachCsvProfile campaign maxDurationMs startTime rest followed w1))"

subsection \<open>What the steps of the automation leave alone\<close>

text \<open>
  A property of the world is stable when every elementary change the automation can make
  keeps it: a call into the browser, a getter of the page, a delay, a record in the
  activity log, a row in or a change to the connections, the progress of a campaign.  The
  automation is built from these, so it keeps every stable property.
\<close>

definition preserves :: "(world \<Rightarrow> bool) \<Rightarrow> (world \<Rightarrow> 'r \<times> world) \<Rightarrow> bool" where
  "preserves P f \<longleftrightarrow> (\<forall>w. P w \<longrightarrow> P (snd (f w)))"

definition stable :: "(world \<Rightarrow> bool) \<Rightarrow> bool" where
  "stable P \<longleftrightarrow>
     (\<forall>w. P w \<longrightarrow>
        P (snd (call w)) \<and> P (snd (query w)) \<and> (\<forall>ms. P (delay ms w))
        \<and> (\<forall>a. P (logActivity w a)) \<and> (\<forall>r. P (insertConnection r w))
        \<and> (\<forall>i. P (markSent i w)) \<and> (\<forall>c n. P (updateCampaignProcessedCount c n w)))"

lemma preservesD: "preserves P f \<Longrightarrow> P w \<Longrightarrow> P (snd (f w))"
  by (simp add: preserves_def)

lemma preserves_ret: "preserves P (ret x)"
  by (simp add: preserves_def ret_def)

lemma preserves_throw: "preserves P (throw e)"
  by (simp add: preserves_def throw_def)

lemma preserves_andThen:
  assumes "preserves P m" "\<And>x. preserves P (f x)"
  shows "preserves P (andThen m f)"
  unfolding preserves_def
proof (intro allI impI)
  fix w assume p: "P w"
  obtain r w1 where m: "m w = (r, w1)" by (cases "m w") auto
  have p1: "P w1" using preservesD [OF assms(1) p] m by simp
  show "P (snd (andThen m f w))"
    using m p1 preservesD [OF assms(2) p1] by (cases r) (simp_all add: andThen_def)
qed

lemma preserves_tryCatch:
  assumes "preserves P m" "\<And>e. preserves P (h e)"
  shows "preserves P (tryCatch m h)"
  unfolding preserves_def
proof (intro allI impI)
  fix w assume p: "P w"
  obtain r w1 where m: "m w = (r, w1)" by (cases "m w") auto
  have p1: "P w1" using preservesD [OF assms(1) p] m by simp
  show "P (snd (tryCatch m h w))"
    using m p1 preservesD [OF assms(2) p1] by (cases r) (simp_all add: tryCatch_def)
qed

lemma preserves_effect: "(\<And>w. P w \<Longrightarrow> P (g w)) \<Longrightarrow> preserves P (effect g)"
  by (simp add: preserves_def effect_def)

lemma preserves_if:
  "preserves P a \<Longrightarrow> preserves P b \<Longrightarrow> preserves P (if c then a else b)"
  by simp

lemma preserves_call: "stable P \<Longrightarrow> preserves P call"
  by (simp add: preserves_def stable_def)

lemma preserves_delay: "stable P \<Longrightarrow> preserves P (effect (delay ms))"
  by (simp add: preserves_def stable_def effect_def)

lemma preserves_currentUrl: "stable P \<Longrightarrow> preserves P currentUrl"
  by (auto simp add: preserves_def stable_def currentUrl_def split: prod.splits
      dest: arg_cong [where f = snd])

lemma preserves_catchAll:
  assumes "preserves P m" "\<And>w e. P w \<Longrightarrow> P (h e w)"
  shows "preserves P (\<lambda>w. case m w of (Inr x, w1) \<Rightarrow> (g x, w1) | (Inl e, w1) \<Rightarrow> (d, h e w1))"
  unfolding preserves_def
proof (intro allI impI)
  fix w assume p: "P w"
  obtain r w1 where m: "m w = (r, w1)" by (cases "m w") auto
  have p1: "P w1" using preservesD [OF assms(1) p] m by simp
  show "P (snd (case m w of (Inr x, w1) \<Rightarrow> (g x, w1) | (Inl e, w1) \<Rightarrow> (d, h e w1)))"
    using m p1 assms(2) [OF p1] by (cases r) simp_all
qed

lemma preserves_lift:
  assumes "preserves P f"
  shows "preserves P (\<lambda>w. case f w of (x, w1) \<Rightarrow> (Inr x, w1))"
  using assms by (auto simp add: preserves_def split: prod.splits dest: arg_cong [where f = snd])

lemma preserves_findButtons: "stable P \<Longrightarrow> preserves P findButtons"
  unfolding findButtons_def
  by (intro preserves_andThen preserves_if preserves_ret preserves_call)

lemma preserves_sendWithNote: "stable P \<Longrightarrow> preserves P sendWithNote"
  unfolding sendWithNote_def
  by (intro preserves_andThen preserves_ret preserves_call preserves_delay)

lemma preserves_clickFollow: "stable P \<Longrightarrow> preserves P (clickFollow p)"
  unfolding clickFollow_def
  by (intro preserves_andThen preserves_ret preserves_call preserves_delay)

lemma preserves_clickConnect: "stable P \<Longrightarrow> preserves P (clickConnect campaign p)"
  unfolding clickConnect_def
  by (intro preserves_andThen preserves_tryCatch preserves_if preserves_ret preserves_call
      preserves_delay preserves_sendWithNote)

lemma preserves_recordConnection:
  "stable P \<Longrightarrow> preserves P (recordConnection campaign p msg)"
  unfolding recordConnection_def
  by (intro preserves_andThen preserves_ret preserves_delay preserves_effect)
     (simp_all add: stable_def)

lemma preserves_personSteps:
  assumes "stable P"
  shows "preserves P (personSteps p campaign)"
proof -
  have a: "preserves P (andThen findButtons (\<lambda>buttons.
          case buttons of
            None \<Rightarrow> ret False
          | Some (followBtn, connectBtn) \<Rightarrow>
              if followBtn
              then andThen (clickFollow p) (recordConnection campaign p)
              else if connectBtn
              then andThen (clickConnect campaign p) (recordConnection campaign p)
              else ret False))"
    by (intro preserves_andThen preserves_findButtons assms)
       (auto split: option.splits
         intro!: preserves_andThen preserves_ret preserves_clickFollow preserves_clickConnect
           preserves_recordConnection assms)
  show ?thesis
    using a by (simp add: preserves_def personSteps_def ret_def)
qed

lemma preserves_processPersonConnection:
  assumes "stable P"
  shows "preserves P (processPersonConnection p campaign)"
  unfolding processPersonConnection_def
  using assms by (intro preserves_catchAll preserves_personSteps) (simp_all add: stable_def)

lemma preserves_viaSearchSteps:
  assumes "stable P"
  shows "preserves P (viaSearchSteps p campaign)"
  unfolding viaSearchSteps_def
  by (intro preserves_andThen preserves_if preserves_ret preserves_call preserves_delay
      preserves_currentUrl preserves_lift preserves_processPersonConnection assms)

lemma preserves_processPersonConnectionViaSearch:
  assumes "stable P"
  shows "preserves P (processPersonConnectionViaSearch p campaign)"
  unfolding processPersonConnectionViaSearch_def
  using assms by (intro preserves_catchAll preserves_viaSearchSteps) simp_all

lemma preserves_csvSteps:
  assumes "stable P"
  shows "preserves P (csvSteps profile campaign)"
proof -
  have m: "preserves P (\<lambda>w. case processPersonConnection match campaign w of
                   (success, w1) \<Rightarrow>
                     (Inr success, if success then markSent (fst profile) w1 else w1))"
    for match
    using preserves_processPersonConnection [OF assms, of match campaign] assms
    by (auto simp add: preserves_def stable_def split: prod.splits
        dest: arg_cong [where f = snd])
  show ?thesis
    unfolding csvSteps_def
    by (intro preserves_andThen preserves_call preserves_delay assms)
       (auto split: option.splits intro!: preserves_ret m)
qed

lemma preserves_processCsvProfile:
  assumes "stable P"
  shows "preserves P (processCsvProfile profile campaign)"
  unfolding processCsvProfile_def
  using assms by (intro preserves_catchAll preserves_csvSteps) simp_all

lemma preserves_goToNextPage:
  assumes "stable P"
  shows "preserves P goToNextPage"
proof -
  have "preserves P nextPageSteps"
    unfolding nextPageSteps_def
    by (intro preserves_andThen preserves_if preserves_ret preserves_call preserves_delay assms)
  then show ?thesis
    unfolding goToNextPage_def [abs_def] by (intro preserves_catchAll) simp_all
qed

lemma preserves_forEachPerson:
  assumes "stable P"
  shows "preserves P (forEachPerson campaign lim maxMs start ps followed)"
proof (induction ps arbitrary: followed)
  case Nil
  show ?case by (simp add: preserves_def)
next
  case (Cons p ps)
  show ?case
    unfolding preserves_def
  proof (intro allI impI)
    fix w assume p: "P w"
    obtain b w1 where s: "processPersonConnection p campaign w = (b, w1)"
      by (cases "processPersonConnection p campaign w") auto
    have p1: "P w1"
      using preservesD [OF preserves_processPersonConnection [OF assms] p, of p campaign] s
      by simp
    have p2: "P (updateCampaignProcessedCount (c_id campaign) (followed + 1) w1)"
      using p1 assms by (simp add: stable_def)
    show "P (snd (forEachPerson campaign lim maxMs start (p # ps) followed w))"
      using p s preservesD [OF Cons.IH p1] preservesD [OF Cons.IH p2] by simp
  qed
qed

lemma preserves_forEachReactor:
  assumes "stable P"
  shows "preserves P (forEachReactor campaign lim maxMs start ps followed)"
proof (induction ps arbitrary: followed)
  case Nil
  show ?case by (simp add: preserves_def)
next
  case (Cons p ps)
  show ?case
    unfolding preserves_def
  proof (intro allI impI)
    fix w assume p: "P w"
    obtain b w1 where s: "processPersonConnectionViaSearch p campaign w = (b, w1)"
      by (cases "processPersonConnectionViaSearch p campaign w") auto
    have p1: "P w1"
      using preservesD [OF preserves_processPersonConnectionViaSearch [OF assms] p,
          of p campaign] s
      by simp
    have p2: "P (updateCampaignProcessedCount (c_id campaign) (followed + 1) w1)"
      using p1 assms by (simp add: stable_def)
    show "P (snd (forEachReactor campaign lim maxMs start (p # ps) followed w))"
      using p s preservesD [OF Cons.IH p1] preservesD [OF Cons.IH p2] by simp
  qed
qed

lemma preserves_forEachCsvProfile:
  assumes "stable P"
  shows "preserves P (forEachCsvProfile campaign maxMs start ps followed)"
proof (induction ps arbitrary: followed)
  case Nil
  show ?case by (simp add: preserves_def)
next
  case (Cons p ps)
  show ?case
    unfolding preserves_def
  proof (intro allI impI)
    fix w assume p: "P w"
    obtain b w1 where s: "processCsvProfile p campaign w = (b, w1)"
      by (cases "processCsvProfile p campaign w") auto
    have p1: "P w1"
      using preservesD [OF preserves_processCsvProfile [OF assms] p, of p campaign] s
      by simp
    have p2: "P (updateCampaignProcessedCount (c_id campaign) (followed + 1) w1)"
      using p1 assms by (simp add: stable_def)
    show "P (snd (forEachCsvProfile campaign maxMs start (p # ps) followed w))"
      using p s preservesD [OF Cons.IH p1] preservesD [OF Cons.IH p2] by simp
  qed
qed

subsection \<open>The loops over pages\<close>

text \<open>
  Every round of a loop over pages starts with a call into the browser that takes an
  answer from the script or throws, so the rounds are bounded by the script.
\<close>

lemma call_answer_shorter:
  "call w = (Inr a, w1) \<Longrightarrow> length (script w1) < length (script w)"
  by (auto simp add: call_def Let_def split: list.splits option.splits)

lemma stable_script_length: "stable (\<lambda>w. length (script w) \<le> n)"
  by (auto simp add: stable_def call_def query_def delay_def logActivity_def
      insertConnection_def markSent_def updateCampaignProcessedCount_def Let_def
      split: list.splits option.splits)

lemma script_bound:
  assumes "\<And>P. stable P \<Longrightarrow> preserves P f" "f w = (r, w1)"
  shows "length (script w1) \<le> length (script w)"
proof -
  have "preserves (\<lambda>v. length (script v) \<le> length (script w)) f"
    by (rule assms(1)) (rule stable_script_length)
  then show ?thesis using assms(2) by (auto simp add: preserves_def dest: spec [of _ w])
qed

lemma forEachPerson_script:
  "forEachPerson campaign lim maxMs start ps followed w = (followed1, w1) \<Longrightarrow>
     length (script w1) \<le> length (script w)"
  by (rule script_bound [of "forEachPerson campaign lim maxMs start ps followed"])
     (rule preserves_forEachPerson)

lemma forEachReactor_script:
  "forEachReactor campaign lim maxMs start ps followed w = (followed1, w1) \<Longrightarrow>
     length (script w1) \<le> length (script w)"
  by (rule script_bound [of "forEachReactor campaign lim maxMs start ps followed"])
     (rule preserves_forEachReactor)

lemma goToNextPage_script:
  "goToNextPage w = (hasNext, w1) \<Longrightarrow> length (script w1) \<le> length (script w)"
  by (rule script_bound [of goToNextPage]) (rule preserves_goToNextPage)

lemma searchLoop_round:
  assumes "(Inr found, w1) = call w"
    and "(followed1, w2) = forEachPerson campaign lim maxMs start (people found) followed w1"
    and "(hasNext, w3) = goToNextPage w2"
  shows "length (script w3) < length (script w)"
  using call_answer_shorter [OF assms(1) [symmetric]]
    forEachPerson_script [OF assms(2) [symmetric]] goToNextPage_script [OF assms(3) [symmetric]]
  by simp

lemma reactionLoop_round:
  assumes "(Inr scrolled, w1) = call w"
    and "(Inr found, w2) = call (delay 2000 w1)"
    and "forEachReactor campaign lim maxMs start (people found) followed w2 = (followed1, w3)"
  shows "length (script w3) < length (script w)"
  using call_answer_shorter [OF assms(1) [symmetric]]
    call_answer_shorter [OF assms(2) [symmetric]]
    forEachReactor_script [OF assms(3)]
  by (simp add: delay_def)

function searchLoop ::
  "Campaign \<Rightarrow> int \<Rightarrow> int \<Rightarrow> timestamp \<Rightarrow> int \<Rightarrow> world \<Rightarrow> (js_error + int) \<times> world" where
  "searchLoop campaign importLimit maxDurationMs startTime followed w =
     (if followed < total_profiles campaign \<and> followed < importLimit
         \<and> elapsedSince w startTime < maxDurationMs
      then
        (case call w of
           (Inl e, w1) \<Rightarrow> (Inl e, w1)
         | (Inr found, w1) \<Rightarrow>
             (case forEachPerson campaign importLimit maxDurationMs startTime (people found)
                     followed w1 of
                (followed1, w2) \<Rightarrow>
                  (case goToNextPage w2 of
                     (hasNext, w3) \<Rightarrow>
                       if hasNext
                       then searchLoop campaign importLimit maxDurationMs startTime followed1 w3
                       else (Inr followed1, w3))))
      else (Inr followed, w))"
  by pat_completeness auto
termination
  apply (relation "measure (\<lambda>(campaign, importLimit, maxDurationMs, startTime, followed, w).
                    length (script w))")
   apply simp
  apply simp
  apply (rule searchLoop_round; assumption)
  done

function reactionLoop ::
  "Campaign \<Rightarrow> int \<Rightarrow> int \<Rightarrow> timestamp \<Rightarrow> int \<Rightarrow> world \<Rightarrow> (js_error + int) \<times> world" where
  "reactionLoop campaign importLimit maxDurationMs startTime followed w =
     (if followed < importLimit \<and> elapsedSince w startTime < maxDurationMs
      then
        (case call w of
           (Inl e, w1) \<Rightarrow> (Inl e, w1)
         | (Inr scrolled, w1) \<Rightarrow>
             (case call (delay 2000 w1) of
                (Inl e, w2) \<Rightarrow> (Inl e, w2)
              | (Inr found, w2) \<Rightarrow>
                  (case forEachReactor campaign importLimit maxDurationMs startTime
                          (people found) followed w2 of
                     (followed1, w3) \<Rightarrow>
                       reactionLoop campaign importLimit maxDurationMs startTime followed1 w3)))
      else (Inr followed, w))"
  by pat_completeness auto
termination
  apply (relation "measure (\<lambda>(campaign, importLimit, maxDurationMs, startTime, followed, w).
                    length (script w))")
   apply simp
  apply (simp split: prod.splits)
  apply (intro allI impI)
  apply (rule reactionLoop_round; assumption)
  done

subsection \<open>The five kinds of campaign\<close>

definition post_id_missing :: js_error where
  "post_id_missing =
     \<lparr>err_name = ''Error'', err_message = ''Post ID not found in campaign LinkedIn URL'',
      err_stack = []\<rparr>"

definition event_id_missing :: js_error where
  "event_id_missing =
     \<lparr>err_name = ''Error'', err_message = ''Event ID not found in campaign LinkedIn URL'',
      err_stack = []\<rparr>"

definition openList :: "unit io" where
  "openList =
     andThen call (\<lambda>_.
     andThen (effect (delay 5000)) (\<lambda>_.
     andThen call (\<lambda>_. ret ())))"

definition processSearchCampaign :: "Campaign \<Rightarrow> int \<Rightarrow> int \<Rightarrow> int \<Rightarrow> timestamp \<Rightarrow> int io" where
  "processSearchCampaign campaign followed importLimit maxDurationMs startTime =
     andThen openList (\<lambda>_.
       searchLoop campaign importLimit maxDurationMs startTime followed)"

definition processReactionsCampaign ::
  "Campaign \<Rightarrow> int \<Rightarrow> int \<Rightarrow> int \<Rightarrow> timestamp \<Rightarrow> int io" where
  "processReactionsCampaign campaign followed importLimit maxDurationMs startTime =
     (if \<not> matchesWithDigits ''activity-'' (linkedin_url campaign) then throw post_id_missing
      else andThen openList (\<lambda>_.
             reactionLoop campaign importLimit maxDurationMs startTime followed))"

definition processCommentsCampaign ::
  "Campaign \<Rightarrow> int \<Rightarrow> int \<Rightarrow> int \<Rightarrow> timestamp \<Rightarrow> int io" where
  "processCommentsCampaign campaign followed importLimit maxDurationMs startTime =
     (if \<not> matchesWithDigits ''activity-'' (linkedin_url campaign) then throw post_id_missing
      else andThen openList (\<lambda>_.
             reactionLoop campaign importLimit maxDurationMs startTime followed))"

definition processEventCampaign :: "Campaign \<Rightarrow> int \<Rightarrow> int \<Rightarrow> int \<Rightarrow> timestamp \<Rightarrow> int io" where
  "processEventCampaign campaign followed importLimit maxDurationMs startTime =
     (if \<not> matchesWithDigits ''/events/'' (linkedin_url campaign) then throw event_id_missing
      else andThen openList (\<lambda>_.
             searchLoop campaign importLimit maxDurationMs startTime followed))"

text \<open>
  The queued rows of a CSV campaign: status queued or pending, oldest request first, at
  most \<open>importLimit\<close> of them; none when the select errors.
\<close>

definition queuedProfiles :: "db \<Rightarrow> Campaign \<Rightarrow> int \<Rightarrow> (nat \<times> LinkedInConnection) list" where
  "queuedProfiles d campaign importLimit =
     (if failing d T_linkedin_connections Select then []
      else take (nat importLimit)
             (sort_key (\<lambda>r. requested_at (snd r))
                (filter (\<lambda>r. lc_campaign_id (snd r) = c_id campaign
                             \<and> lc_status (snd r) \<in> set [CQueued, CPending])
                   (linkedin_connections d))))"

definition processCsvCampaign :: "Campaign \<Rightarrow> int \<Rightarrow> int \<Rightarrow> int \<Rightarrow> timestamp \<Rightarrow> int io" where
  "processCsvCampaign campaign followed importLimit maxDurationMs startTime w =
     (let rows = queuedProfiles (database w) campaign importLimit in
      if rows = [] then (Inr followed, w)
      else (case forEachCsvProfile campaign maxDurationMs startTime rows followed w of
              (followed1, w1) \<Rightarrow> (Inr followed1, w1)))"

text \<open>
  \<^verbatim>\<open>sendFollowRequests\<close>: counts the connections the campaign already has, and lets the
  handler of the campaign's type go on from that count up to the limit of this run.
\<close>

definition sendFollowRequests :: "nat \<Rightarrow> Campaign \<Rightarrow> int \<Rightarrow> int \<Rightarrow> unit io" where
  "sendFollowRequests pg campaign importLimit maxDurationMs w =
     (let startTime = clock w;
          followed = countConnections (database w) (c_id campaign)
      in if linkedin_url campaign = [] \<and> campaign_type campaign \<noteq> Some Csv then (Inr (), w)
         else
           andThen
             (case (case campaign_type campaign of None \<Rightarrow> Search | Some t \<Rightarrow> t) of
                Search \<Rightarrow>
                  processSearchCampaign campaign followed importLimit maxDurationMs startTime
              | Reactions \<Rightarrow>
                  processReactionsCampaign campaign followed importLimit maxDurationMs startTime
              | Comments \<Rightarrow>
                  processCommentsCampaign campaign followed importLimit maxDurationMs startTime
              | Event \<Rightarrow>
                  processEventCampaign campaign followed importLimit maxDurationMs startTime
              | Csv \<Rightarrow>
                  processCsvCampaign campaign followed importLimit maxDurationMs startTime)
             (\<lambda>followed1. ret ()) w)"

lemma preserves_searchLoop:
  assumes "stable P"
  shows "preserves P (searchLoop campaign lim maxMs start followed)"
  unfolding preserves_def
proof (intro allI impI)
  fix w assume "P w"
  then show "P (snd (searchLoop campaign lim maxMs start followed w))"
  proof (induction campaign lim maxMs start followed w rule: searchLoop.induct)
    case (1 campaign lim maxMs start followed w)
    show ?case
    proof (cases "followed < total_profiles campaign \<and> followed < lim
                  \<and> elapsedSince w start < maxMs")
      case False
      then show ?thesis using "1.prems" by (subst searchLoop.simps) auto
    next
      case True
      obtain r w1 where c: "call w = (r, w1)" by (cases "call w") auto
      have p1: "P w1" using "1.prems" assms c by (auto simp add: stable_def dest: spec [of _ w])
      show ?thesis
      proof (cases r)
        case (Inl e)
        then show ?thesis using True c p1 by (simp add: searchLoop.simps [of _ _ _ _ _ w])
      next
        case (Inr found)
        obtain f1 w2 where f: "forEachPerson campaign lim maxMs start (people found) followed w1
                                 = (f1, w2)"
          by (cases "forEachPerson campaign lim maxMs start (people found) followed w1") auto
        have p2: "P w2"
          using preservesD [OF preserves_forEachPerson [OF assms] p1,
              of campaign lim maxMs start "people found" followed] f by simp
        obtain hn w3 where g: "goToNextPage w2 = (hn, w3)" by (cases "goToNextPage w2") auto
        have p3: "P w3" using preservesD [OF preserves_goToNextPage [OF assms] p2] g by simp
        show ?thesis
        proof (cases hn)
          case False
          then show ?thesis
            using True c Inr f g p3 by (simp add: searchLoop.simps [of _ _ _ _ _ w])
        next
          case hn: True
          have "P (snd (searchLoop campaign lim maxMs start f1 w3))"
            using "1.IH" [OF True c [symmetric] Inr f [symmetric] g [symmetric] _ p3]
              hn by simp
          then show ?thesis
            using True c Inr f g hn by (simp add: searchLoop.simps [of _ _ _ _ _ w])
        qed
      qed
    qed
  qed
qed

lemma stable_call: "stable P \<Longrightarrow> P w \<Longrightarrow> call w = (r, w1) \<Longrightarrow> P w1"
  by (auto simp add: stable_def dest: spec [of _ w])

lemma stable_delay: "stable P \<Longrightarrow> P w \<Longrightarrow> P (delay ms w)"
  by (simp add: stable_def)

lemma preserves_reactionLoop:
  assumes "stable P"
  shows "preserves P (reactionLoop campaign lim maxMs start followed)"
  unfolding preserves_def
proof (intro allI impI)
  fix w assume "P w"
  then show "P (snd (reactionLoop campaign lim maxMs start followed w))"
  proof (induction campaign lim maxMs start followed w rule: reactionLoop.induct)
    case (1 campaign lim maxMs start followed w)
    show ?case
    proof (cases "followed < lim \<and> elapsedSince w start < maxMs")
      case False
      then show ?thesis using "1.prems" by (subst reactionLoop.simps) auto
    next
      case True
      obtain r w1 where c: "call w = (r, w1)" by (cases "call w") auto
      have p1: "P w1" using "1.prems" assms c by (auto simp add: stable_def dest: spec [of _ w])
      show ?thesis
      proof (cases r)
        case (Inl e)
        then show ?thesis using True c p1 by (simp add: reactionLoop.simps [of _ _ _ _ _ w])
      next
        case (Inr scrolled)
        obtain r2 w2 where c2: "call (delay 2000 w1) = (r2, w2)"
          by (cases "call (delay 2000 w1)") auto
        have p2: "P w2"
          using stable_call [OF assms stable_delay [OF assms p1] c2] .
        show ?thesis
        proof (cases r2)
          case (Inl e)
          then show ?thesis
            using True c \<open>r = Inr scrolled\<close> c2 p2
            by (simp add: reactionLoop.simps [of _ _ _ _ _ w])
        next
          case found: (Inr found)
          obtain f1 w3 where f: "forEachReactor campaign lim maxMs start (people found)
                                   followed w2 = (f1, w3)"
            by (cases "forEachReactor campaign lim maxMs start (people found) followed w2") auto
          have p3: "P w3"
            using preservesD [OF preserves_forEachReactor [OF assms] p2,
                of campaign lim maxMs start "people found" followed] f by simp
          have "P (snd (reactionLoop campaign lim maxMs start f1 w3))"
            using "1.IH" [OF True c [symmetric] Inr c2 [symmetric] found f [symmetric] p3] .
          then show ?thesis
            using True c Inr c2 found f by (simp add: reactionLoop.simps [of _ _ _ _ _ w])
        qed
      qed
    qed
  qed
qed

lemma preserves_openList: "stable P \<Longrightarrow> preserves P openList"
  unfolding openList_def
  by (intro preserves_andThen preserves_ret preserves_call preserves_delay)

lemma preserves_processCsvCampaign:
  assumes "stable P"
  shows "preserves P (processCsvCampaign campaign followed lim maxMs start)"
  unfolding preserves_def
proof (intro allI impI)
  fix w assume p: "P w"
  let ?rows = "queuedProfiles (database w) campaign lim"
  obtain f1 w1 where f: "forEachCsvProfile campaign maxMs start ?rows followed w = (f1, w1)"
    by (cases "forEachCsvProfile campaign maxMs start ?rows followed w") auto
  have "P w1"
    using preservesD [OF preserves_forEachCsvProfile [OF assms] p,
        of campaign maxMs start ?rows followed] f by simp
  then show "P (snd (processCsvCampaign campaign followed lim maxMs start w))"
    using p f by (simp add: processCsvCampaign_def Let_def)
qed

lemma preserves_sendFollowRequests:
  assumes "stable P"
  shows "preserves P (sendFollowRequests pg campaign lim maxMs)"
proof -
  have h: "preserves P
     (andThen
        (case (case campaign_type campaign of None \<Rightarrow> Search | Some t \<Rightarrow> t) of
           Search \<Rightarrow> processSearchCampaign campaign followed lim maxMs start
         | Reactions \<Rightarrow> processReactionsCampaign campaign followed lim maxMs start
         | Comments \<Rightarrow> processCommentsCampaign campaign followed lim maxMs start
         | Event \<Rightarrow> processEventCampaign campaign followed lim maxMs start
         | Csv \<Rightarrow> processCsvCampaign campaign followed lim maxMs start)
        (\<lambda>followed1. ret ()))" for followed start
    by (intro preserves_andThen preserves_ret)
       (auto split: campaign_type.splits
         simp add: processSearchCampaign_def processReactionsCampaign_def
           processCommentsCampaign_def processEventCampaign_def
         intro!: preserves_andThen preserves_throw preserves_openList preserves_searchLoop
           preserves_reactionLoop preserves_processCsvCampaign assms)
  show ?thesis
    unfolding preserves_def
  proof (intro allI impI)
    fix w assume p: "P w"
    show "P (snd (sendFollowRequests pg campaign lim maxMs w))"
      using p preservesD [OF h p, of "countConnections (database w) (c_id campaign)" "clock w"]
      by (simp add: sendFollowRequests_def Let_def)
  qed
qed

section \<open>Follow-request processor (BaseProcessor, FollowRequestProcessor)\<close>

definition request_failed :: js_error where
  "request_failed =
     \<lparr>err_name = ''PostgrestError'', err_message = ''request failed'', err_stack = []\<rparr>"

definition not_single_row :: js_error where
  "not_single_row =
     \<lparr>err_name = ''PostgrestError'',
      err_message = ''JSON object requested, multiple (or no) rows returned'',
      err_stack = []\<rparr>"

definition checkTrialStatus :: "db \<Rightarrow> timestamp \<Rightarrow> user_id \<Rightarrow> bool" where
  "checkTrialStatus d now uid =
     (case (if failing d T_profiles Select then None
            else single (filter (\<lambda>p. p_id p = uid) (profiles d))) of
        None \<Rightarrow> False
      | Some profile \<Rightarrow> int now - int (p_created_at profile) \<le> 7 * (1000 * 60 * 60 * 24))"

definition getCampaign :: "db \<Rightarrow> campaign_id \<Rightarrow> js_error + Campaign" where
  "getCampaign d campaignId =
     (if failing d T_linkedin_campaigns Select then Inl request_failed
      else (case single (filter (\<lambda>c. c_id c = campaignId) (linkedin_campaigns d)) of
              None \<Rightarrow> Inl not_single_row
            | Some campaign \<Rightarrow> Inr campaign))"

definition getLinkedInAccount :: "db \<Rightarrow> user_id \<Rightarrow> js_error + LinkedInAccount" where
  "getLinkedInAccount d uid =
     (if failing d T_linkedin_accounts Select then Inl request_failed
      else (case single (filter (\<lambda>a. a_user_id a = uid) (linkedin_accounts d)) of
              None \<Rightarrow> Inl not_single_row
            | Some account \<Rightarrow> Inr account))"

definition isCampaignActive :: "Campaign \<Rightarrow> bool" where
  "isCampaignActive campaign \<longleftrightarrow> status campaign = Some Active"

text \<open>
  \<^verbatim>\<open>logUsageAndLimits\<close> reads the settings, the usage and the quotas and writes them to
  the logger; what it leaves in the tables is what its two reads of the settings leave.
\<close>

definition logUsageAndLimits :: "db \<Rightarrow> timestamp \<Rightarrow> user_id \<Rightarrow> db" where
  "logUsageAndLimits d now uid =
     (let (settings, d1) = loadLinkedInSettings d uid;
          usage = getDailyUsage d1 now uid None;
          (quotas, d2) = getRemainingQuotas d1 now uid
      in d2)"

text \<open>\<^verbatim>\<open>x || dflt\<close> on an optional number: a missing value and 0 give the default.\<close>

definition orDefault :: "int option \<Rightarrow> int \<Rightarrow> int" where
  "orDefault x dflt = (case x of None \<Rightarrow> dflt | Some n \<Rightarrow> if n = 0 then dflt else n)"

definition dataImportLimit :: "Job \<Rightarrow> int" where
  "dataImportLimit job =
     orDefault (case jd_data (job_data job) of None \<Rightarrow> None | Some dat \<Rightarrow> pl_importLimit dat) 10"

definition dataMaxDurationMs :: "Job \<Rightarrow> int" where
  "dataMaxDurationMs job =
     orDefault (case jd_data (job_data job) of None \<Rightarrow> None | Some dat \<Rightarrow> pl_maxDurationMs dat)
       (3 * 60 * 1000)"

definition jobTypeName :: "jobType \<Rightarrow> string" where
  "jobTypeName jt =
     (case jt of
        FollowRequest \<Rightarrow> ''followRequest''
      | FollowResponse \<Rightarrow> ''followResponse''
      | SendMessages \<Rightarrow> ''sendMessages''
      | ProcessPendingJobs \<Rightarrow> ''processPendingJobs''
      | ProcessSingleCampaign \<Rightarrow> ''processSingleCampaign'')"

definition limitReachedRecord :: "user_id \<Rightarrow> campaign_id \<Rightarrow> int \<Rightarrow> ActivityLogData" where
  "limitReachedRecord uid campaignId requested =
     \<lparr>log_user_id = uid, log_campaign_id = campaignId, log_job_type = ''followRequest'',
      log_level = Info,
      log_message = ''Daily connection limit reached. Job queued for next day.'',
      log_context = [(''requested_connections'', JNumber requested)]\<rparr>"

text \<open>
  The \<^verbatim>\<open>id\<close> of a job is a string: the queue's counter written in decimal.
\<close>

fun decimal :: "nat \<Rightarrow> string" where
  "decimal n =
     (if n < 10 then [''0123456789'' ! n]
      else decimal (n div 10) @ [''0123456789'' ! (n mod 10)])"

declare decimal.simps [simp del]

definition handleJobError :: "world \<Rightarrow> Job \<Rightarrow> js_error \<Rightarrow> world" where
  "handleJobError w job error =
     logActivity w
       \<lparr>log_user_id = jd_userId (job_data job), log_campaign_id = jd_campaignId (job_data job),
        log_job_type = jobTypeName (jd_jobType (job_data job)), log_level = Error,
        log_message = ''Job failed: '' @ err_message error,
        log_context = [(''error'', JString (err_stack error)),
                       (''jobId'', JString (decimal (job_id job)))]\<rparr>"

text \<open>The \<^verbatim>\<open>try\<close> block of \<^verbatim>\<open>process\<close>.\<close>

definition processSteps :: "Job \<Rightarrow> unit io" where
  "processSteps job w =
     (let uid = jd_userId (job_data job); campaignId = jd_campaignId (job_data job) in
      if \<not> checkTrialStatus (database w) (clock w) uid then (Inr (), w)
      else
        (case getCampaign (database w) campaignId of
           Inl error \<Rightarrow> (Inl error, w)
         | Inr campaign \<Rightarrow>
        if \<not> isCampaignActive campaign then (Inr (), w)
        else
        (case getLinkedInAccount (database w) uid of
           Inl error \<Rightarrow> (Inl error, w)
         | Inr accountData \<Rightarrow>
        (let d1 = logUsageAndLimits (database w) (clock w) uid;
             importLimit = dataImportLimit job;
             maxDurationMs = dataMaxDurationMs job;
             (maxConnectionsForRun, d2) =
                getMaxActionsForRun d1 (clock w) uid Connections importLimit;
             (quotas, d3) = getRemainingQuotas d2 (clock w) uid
         in if maxConnectionsForRun \<le> 0
            then
              (case createPendingJob d3 (clock w) uid campaignId FollowRequestPJ Connections
                      importLimit of
                 (Inl error, d4) \<Rightarrow> (Inl error, w\<lparr>database := d4\<rparr>)
               | (Inr u, d4) \<Rightarrow>
                   (Inr (), logActivity (w\<lparr>database := d4\<rparr>)
                              (limitReachedRecord uid campaignId importLimit)))
            else
              runWithLogin (w\<lparr>database := d3\<rparr>) campaign accountData
                (\<lambda>args. sendFollowRequests (arg_page args) campaign maxConnectionsForRun
                           maxDurationMs)))))"

definition process :: "Job \<Rightarrow> unit io" where
  "process job w =
     (case processSteps job w of
        (Inl error, w1) \<Rightarrow> (Inl error, handleJobError w1 job error)
      | (Inr u, w1) \<Rightarrow> (Inr u, w1))"

text \<open>
  The scenario: user \<open>u1\<close>, in trial, with the default cap of 30 connections a day, has
  used 28 of them today; his campaign \<open>c1\<close> is an active search campaign; a job asks for
  10 connections.  The browser starts, shows a page of three people, each with a connect
  button, and has no next page.
\<close>

definition yes :: answer where
  "yes = \<lparr>elapsed = 100, thrown = None, flag = True, text_val = [], people = []\<rparr>"

definition no :: answer where
  "no = \<lparr>elapsed = 100, thrown = None, flag = False, text_val = [], people = []\<rparr>"

definition three_people :: answer where
  "three_people =
     no\<lparr>people :=
          [\<lparr>url = ''https://www.linkedin.com/in/ann'', name = ''Ann Lee'', headline = ''CEO'',
            company = ''Acme''\<rparr>,
           \<lparr>url = ''https://www.linkedin.com/in/bob'', name = ''Bob  Ray Jr'', headline = ''CTO'',
            company = ''Acme''\<rparr>,
           \<lparr>url = ''https://www.linkedin.com/in/cy'', name = ''Cy Young'', headline = ''CFO'',
            company = ''Acme''\<rparr>]\<rparr>"

definition db_scenario :: db where
  "db_scenario =
     empty_db
       \<lparr>linkedin_settings := [(''u1'', defaultSettings)],
        daily_usage := [(''u1'', \<lparr>connections = 28, messages = 0, visits = 0, inmails = 0,
                                 date = 20000\<rparr>)],
        profiles := [\<lparr>p_id = ''u1'', p_created_at = 20000 * 86400000\<rparr>],
        linkedin_campaigns := [camp1],
        linkedin_accounts := [acct1]\<rparr>"

definition w_scenario :: world where
  "w_scenario =
     \<lparr>database = db_scenario, sessions = [], timers = [], clock = a_moment,
      script = [yes, yes, yes, yes, no, open_answer,
                yes, yes, three_people,
                yes, no, yes, yes, yes,
                yes, no, yes, yes, yes,
                yes, no],
      next_handle = 0, queue = empty_queue\<rparr>"

definition job10 :: Job where
  "job10 =
     \<lparr>job_id = 1, job_name = FollowRequest,
      job_data = \<lparr>jd_userId = ''u1'', jd_campaignId = ''c1'', jd_jobType = FollowRequest,
                  jd_data = Some (no_payload\<lparr>pl_importLimit := Some 10\<rparr>)\<rparr>,
      job_state = JActive, attemptsMade = 1, failedReason = None\<rparr>"

section \<open>Properties of the follow-request processor\<close>

text \<open>Reading the settings again gives the same settings, and the quota reads with them.\<close>

lemma loadLinkedInSettings_again:
  "fst (loadLinkedInSettings (snd (loadLinkedInSettings d uid)) uid) =
     fst (loadLinkedInSettings d uid)"
proof (cases "failing d T_linkedin_settings Select")
  case True
  then show ?thesis by (simp add: loadLinkedInSettings_def)
next
  case False
  show ?thesis
  proof (cases "filter (\<lambda>r. fst r = uid) (linkedin_settings d)")
    case Nil
    then show ?thesis using False by (simp add: loadLinkedInSettings_def single_def)
  next
    case (Cons r rs)
    then show ?thesis
      using False by (cases rs) (simp_all add: loadLinkedInSettings_def single_def)
  qed
qed

lemma loadLinkedInSettings_pending_jobs:
  "pending_jobs (snd (loadLinkedInSettings d uid)) = pending_jobs d"
  by (simp add: loadLinkedInSettings_def split: option.splits)

lemma loadLinkedInSettings_next_row_id:
  "next_row_id (snd (loadLinkedInSettings d uid)) = next_row_id d"
  by (simp add: loadLinkedInSettings_def split: option.splits)

lemma getRemainingQuotas_snd:
  "snd (getRemainingQuotas d now uid) = snd (loadLinkedInSettings d uid)"
  by (simp add: getRemainingQuotas_def case_prod_beta Let_def)

lemma getRemainingQuotas_again:
  "fst (getRemainingQuotas (snd (loadLinkedInSettings d uid)) now uid) =
     fst (getRemainingQuotas d now uid)"
  by (simp add: getRemainingQuotas_def case_prod_beta Let_def loadLinkedInSettings_again
      getDailyUsage_after_load)

lemma logUsageAndLimits_eq:
  "logUsageAndLimits d now uid =
     snd (loadLinkedInSettings (snd (loadLinkedInSettings d uid)) uid)"
  by (simp add: logUsageAndLimits_def case_prod_beta Let_def getRemainingQuotas_snd)

lemma allowed_after_logUsageAndLimits:
  "fst (getMaxActionsForRun (logUsageAndLimits d now uid) now uid k n) =
     fst (getMaxActionsForRun d now uid k n)"
  by (simp add: getMaxActionsForRun_fst logUsageAndLimits_eq getRemainingQuotas_again)

text \<open>The tables after the reads the processor makes before it decides.\<close>

definition afterReads :: "db \<Rightarrow> timestamp \<Rightarrow> user_id \<Rightarrow> int \<Rightarrow> db" where
  "afterReads d now uid requested =
     snd (getRemainingQuotas
            (snd (getMaxActionsForRun (logUsageAndLimits d now uid) now uid Connections requested))
            now uid)"

lemma afterReads_frame:
  "pending_jobs (afterReads d now uid n) = pending_jobs d
   \<and> daily_usage (afterReads d now uid n) = daily_usage d
   \<and> failing (afterReads d now uid n) = failing d
   \<and> next_row_id (afterReads d now uid n) = next_row_id d"
  by (simp add: afterReads_def getRemainingQuotas_snd getMaxActionsForRun_snd
      logUsageAndLimits_eq loadLinkedInSettings_pending_jobs loadLinkedInSettings_daily_usage
      loadLinkedInSettings_failing loadLinkedInSettings_next_row_id)

lemma processSteps_decision:
  assumes "checkTrialStatus (database w) (clock w) (jd_userId (job_data job))"
    and "getCampaign (database w) (jd_campaignId (job_data job)) = Inr campaign"
    and "isCampaignActive campaign"
    and "getLinkedInAccount (database w) (jd_userId (job_data job)) = Inr accountData"
  shows "processSteps job w =
     (let uid = jd_userId (job_data job); campaignId = jd_campaignId (job_data job);
          requested = dataImportLimit job;
          allowed = fst (getMaxActionsForRun (database w) (clock w) uid Connections requested);
          d3 = afterReads (database w) (clock w) uid requested
      in if allowed \<le> 0
         then (case createPendingJob d3 (clock w) uid campaignId FollowRequestPJ Connections
                      requested of
                 (Inl error, d4) \<Rightarrow> (Inl error, w\<lparr>database := d4\<rparr>)
               | (Inr u, d4) \<Rightarrow>
                   (Inr (), logActivity (w\<lparr>database := d4\<rparr>)
                              (limitReachedRecord uid campaignId requested)))
         else runWithLogin (w\<lparr>database := d3\<rparr>) campaign accountData
                (\<lambda>args. sendFollowRequests (arg_page args) campaign allowed
                           (dataMaxDurationMs job)))"
  using assms
  by (simp add: processSteps_def Let_def case_prod_beta afterReads_def
      allowed_after_logUsageAndLimits)


text \<open>
  Nothing the automation runner and the automation do touches the pending jobs or the usage
  counters.
\<close>

definition quotaTables :: "world \<Rightarrow> PendingJob list \<times> (user_id \<times> DailyUsage) list" where
  "quotaTables w = (pending_jobs (database w), daily_usage (database w))"

lemma call_database: "database (snd (call w)) = database w"
  by (simp add: call_def Let_def split: list.splits option.splits)

lemma stable_quotaTables: "stable (\<lambda>w. quotaTables w = K)"
  by (auto simp add: stable_def quotaTables_def call_database query_def delay_def
      logActivity_def insertConnection_def markSent_def updateCampaignProcessedCount_def
      Let_def split: list.splits)

lemma getSession_database: "database (snd (getSession w uid)) = database w"
  by (simp add: getSession_def Let_def split: option.splits)

lemma createSession_database: "database (snd (createSession w uid)) = database w"
  by (cases "createSession w uid")
     (auto simp add: createSession_def new_handle_def Let_def
       split: prod.splits sum.splits dest!: call_frame)

lemma closeSession_database: "database (closeSession w uid) = database w"
  by (auto simp add: closeSession_def split: option.splits prod.splits sum.splits
      dest!: call_frame)

lemma query_database: "database (snd (query w)) = database w"
  by (simp add: query_def split: list.splits)

lemma obtainSession_database: "database (snd (obtainSession w uid)) = database w"
proof -
  obtain r w1 where g: "getSession w uid = (r, w1)" by (cases "getSession w uid") auto
  have d1: "database w1 = database w" using getSession_database [of w uid] g by simp
  obtain r2 w2 where s: "(case r of None \<Rightarrow> createSession w1 uid
                           | Some session \<Rightarrow> (Inr session, updateSessionActivity w1 uid))
                          = (r2, w2)"
    by (cases "case r of None \<Rightarrow> createSession w1 uid
                 | Some session \<Rightarrow> (Inr session, updateSessionActivity w1 uid)") auto
  have d2: "database w2 = database w"
    using s d1 createSession_database [of w1 uid] getSession_database [of w1 uid]
    by (cases r) (auto simp add: updateSessionActivity_getSession)
  obtain a w3 where q: "query w2 = (a, w3)" by (cases "query w2") auto
  have d3: "database w3 = database w" using query_database [of w2] q d2 by simp
  have d4: "database (snd (createSession (closeSession w3 uid) uid)) = database w"
    using d3 by (simp add: createSession_database closeSession_database)
  show ?thesis
    using g s q d2 d3 d4 by (cases r2) (auto simp add: obtainSession_def)
qed

lemma runWithLogin_quotaTables:
  assumes "\<And>args. preserves (\<lambda>w. quotaTables w = K) (runFn args)" "quotaTables w = K"
  shows "quotaTables (snd (runWithLogin w campaign accountData runFn)) = K"
proof -
  have lg: "quotaTables (logActivity v a) = quotaTables v" for v a
    by (simp add: quotaTables_def logActivity_def)
  obtain sr w1 where o: "obtainSession w (c_user_id campaign) = (sr, w1)"
    by (cases "obtainSession w (c_user_id campaign)") auto
  have k1: "quotaTables w1 = K"
    using obtainSession_database [of w "c_user_id campaign"] o assms(2)
    by (simp add: quotaTables_def)
  show ?thesis
  proof (cases sr)
    case (Inl e)
    then show ?thesis using o k1 by (simp add: runWithLogin_def lg)
  next
    case (Inr session)
    obtain u w2 where q: "query w1 = (u, w2)" by (cases "query w1") auto
    have k2: "quotaTables w2 = K"
      using query_database [of w1] q k1 by (simp add: quotaTables_def)
    let ?w3 = "logActivity w2 (startedRecord campaign (text_val u))"
    let ?args = "\<lparr>arg_browser = browser session, arg_page = page session,
                  arg_campaign = campaign, arg_accountData = accountData\<rparr>"
    have k3: "quotaTables ?w3 = K" using k2 by (simp add: lg)
    obtain r w4 where a: "runFn ?args ?w3 = (r, w4)" by (cases "runFn ?args ?w3") auto
    have k4: "quotaTables w4 = K" using preservesD [OF assms(1) k3, of ?args] a by simp
    show ?thesis
      using o Inr q a k4 by (cases r) (simp_all add: runWithLogin_def lg)
  qed
qed

lemma process_positive_quotaTables:
  assumes "checkTrialStatus (database w) (clock w) (jd_userId (job_data job))"
    and "getCampaign (database w) (jd_campaignId (job_data job)) = Inr campaign"
    and "isCampaignActive campaign"
    and "getLinkedInAccount (database w) (jd_userId (job_data job)) = Inr accountData"
    and "0 < fst (getMaxActionsForRun (database w) (clock w) (jd_userId (job_data job))
                   Connections (dataImportLimit job))"
  shows "quotaTables (snd (process job w)) = quotaTables w"
proof -
  let ?uid = "jd_userId (job_data job)"
  let ?allowed = "fst (getMaxActionsForRun (database w) (clock w) ?uid Connections
                      (dataImportLimit job))"
  let ?w3 = "w\<lparr>database := afterReads (database w) (clock w) ?uid (dataImportLimit job)\<rparr>"
  let ?fn = "\<lambda>args. sendFollowRequests (arg_page args) campaign ?allowed (dataMaxDurationMs job)"
  have s: "processSteps job w = runWithLogin ?w3 campaign accountData ?fn"
    using assms(5) by (simp add: processSteps_decision [OF assms(1-4)] Let_def)
  have k: "quotaTables ?w3 = quotaTables w"
    by (simp add: quotaTables_def afterReads_frame)
  have r: "quotaTables (snd (runWithLogin ?w3 campaign accountData ?fn)) = quotaTables w"
    by (rule runWithLogin_quotaTables)
       (simp_all add: k preserves_sendFollowRequests [OF stable_quotaTables])
  have lg: "quotaTables (handleJobError v job e) = quotaTables v" for v e
    by (simp add: quotaTables_def handleJobError_def logActivity_def)
  obtain res w4 where p: "processSteps job w = (res, w4)" by (cases "processSteps job w") auto
  show ?thesis
    using p s r by (cases res) (simp_all add: process_def lg)
qed

lemma process_defers:
  assumes "checkTrialStatus (database w) (clock w) (jd_userId (job_data job))"
    and "getCampaign (database w) (jd_campaignId (job_data job)) = Inr campaign"
    and "isCampaignActive campaign"
    and "getLinkedInAccount (database w) (jd_userId (job_data job)) = Inr accountData"
    and "fst (getMaxActionsForRun (database w) (clock w) (jd_userId (job_data job))
               Connections (dataImportLimit job)) \<le> 0"
    and "\<not> failing (database w) T_pending_jobs Insert"
  shows "process job w =
     (Inr (),
      logActivity
        (w\<lparr>database :=
             (afterReads (database w) (clock w) (jd_userId (job_data job)) (dataImportLimit job))
               \<lparr>pending_jobs := pending_jobs (database w) @
                  [\<lparr>pj_id = next_row_id (database w), user_id = jd_userId (job_data job),
                    campaign_id = jd_campaignId (job_data job), job_type = FollowRequestPJ,
                    action_type = Connections, requested_count = dataImportLimit job,
                    created_at = clock w, retry_count = 0, max_retries = 3\<rparr>],
                next_row_id := Suc (next_row_id (database w))\<rparr>\<rparr>)
        (limitReachedRecord (jd_userId (job_data job)) (jd_campaignId (job_data job))
           (dataImportLimit job)))"
  using assms(5,6)
  by (simp add: process_def processSteps_decision [OF assms(1-4)] Let_def createPendingJob_def
      afterReads_frame)

lemma loadLinkedInSettings_activity_logs:
  "activity_logs (snd (loadLinkedInSettings d uid)) = activity_logs d"
  by (simp add: loadLinkedInSettings_def split: option.splits)

text \<open>
  C2.  For every state, user, resource kind and requested amount,
  \<^verbatim>\<open>getMaxActionsForRun\<close> returns the smaller of the requested amount and the remaining
  quota \<open>max 0 (limit - usage)\<close>: the remaining quota when the request exceeds it, and 0 when
  the quota is exhausted; it has no error result.  When it returns 0 to a follow-request
  job (one that has passed the trial, campaign and account checks), and the insert into the
  pending jobs does not error, the processor appends one Pending Job that carries the
  requested amount as it was passed in, logs the information record and returns normally,
  without a step into the browser.
\<close>

theorem getMaxActionsForRun_clamps_and_defers:
  assumes "checkTrialStatus (database w) (clock w) (jd_userId (job_data job))"
    and "getCampaign (database w) (jd_campaignId (job_data job)) = Inr campaign"
    and "isCampaignActive campaign"
    and "getLinkedInAccount (database w) (jd_userId (job_data job)) = Inr accountData"
    and "fst (getMaxActionsForRun (database w) (clock w) (jd_userId (job_data job))
               Connections (dataImportLimit job)) \<le> 0"
    and "\<not> failing (database w) T_pending_jobs Insert"
  shows "fst (getMaxActionsForRun d now uid k n) =
           min n (max 0 (limitOf d uid k - usageToday d now uid k))
     \<and> (max 0 (limitOf d uid k - usageToday d now uid k) < n \<longrightarrow>
           fst (getMaxActionsForRun d now uid k n) =
             max 0 (limitOf d uid k - usageToday d now uid k))
     \<and> (limitOf d uid k \<le> usageToday d now uid k \<and> 0 \<le> n \<longrightarrow>
           fst (getMaxActionsForRun d now uid k n) = 0)
     \<and> fst (process job w) = Inr ()
     \<and> pending_jobs (database (snd (process job w))) =
         pending_jobs (database w) @
           [\<lparr>pj_id = next_row_id (database w), user_id = jd_userId (job_data job),
             campaign_id = jd_campaignId (job_data job), job_type = FollowRequestPJ,
             action_type = Connections, requested_count = dataImportLimit job,
             created_at = clock w, retry_count = 0, max_retries = 3\<rparr>]
     \<and> activity_logs (database (snd (process job w))) =
         activity_logs (database w) @
           (if failing (database w) T_activity_logs Insert then []
            else [(limitReachedRecord (jd_userId (job_data job))
                     (jd_campaignId (job_data job)) (dataImportLimit job), clock w)])
     \<and> script (snd (process job w)) = script w
     \<and> sessions (snd (process job w)) = sessions w"
proof -
  let ?uid = "jd_userId (job_data job)"
  let ?cid = "jd_campaignId (job_data job)"
  let ?d3 = "afterReads (database w) (clock w) ?uid (dataImportLimit job)"
  have g: "fst (getMaxActionsForRun d now uid k n) =
             min n (max 0 (limitOf d uid k - usageToday d now uid k))"
    by (simp add: getMaxActionsForRun_fst availableQuota_eq)
  have g1: "max 0 (limitOf d uid k - usageToday d now uid k) < n \<longrightarrow>
           fst (getMaxActionsForRun d now uid k n) =
             max 0 (limitOf d uid k - usageToday d now uid k)"
    unfolding g by simp
  have g2: "limitOf d uid k \<le> usageToday d now uid k \<and> 0 \<le> n \<longrightarrow>
           fst (getMaxActionsForRun d now uid k n) = 0"
    unfolding g by simp
  have l: "activity_logs ?d3 = activity_logs (database w)"
    by (simp add: afterReads_def getRemainingQuotas_snd getMaxActionsForRun_snd
        logUsageAndLimits_eq loadLinkedInSettings_activity_logs)
  have f: "failing ?d3 = failing (database w)"
    by (simp add: afterReads_frame)
  note p = process_defers [OF assms]
  have r: "fst (process job w) = Inr ()"
    by (simp add: p)
  have pj: "pending_jobs (database (snd (process job w))) =
         pending_jobs (database w) @
           [\<lparr>pj_id = next_row_id (database w), user_id = ?uid, campaign_id = ?cid,
             job_type = FollowRequestPJ, action_type = Connections,
             requested_count = dataImportLimit job, created_at = clock w, retry_count = 0,
             max_retries = 3\<rparr>]"
    by (simp add: p logActivity_def)
  have al: "activity_logs (database (snd (process job w))) =
         activity_logs (database w) @
           (if failing (database w) T_activity_logs Insert then []
            else [(limitReachedRecord ?uid ?cid (dataImportLimit job), clock w)])"
    by (simp add: p logActivity_def l f)
  have sc: "script (snd (process job w)) = script w" "sessions (snd (process job w)) = sessions w"
    by (simp_all add: p logActivity_def)
  show ?thesis
    using g g1 g2 r pj al sc by blast
qed

text \<open>
  C3 (as amended).  For a user whose limit is 30 connections a day and whose usage today
  is 28, a follow-request job that asks for 10 gets 2 from \<^verbatim>\<open>getMaxActionsForRun\<close>; once
  the job has passed the trial, campaign and account checks, it runs the automation through
  \<^verbatim>\<open>runWithLogin\<close> with a limit of 2 for the run, and when it ends, completed or failed,
  the pending jobs are what they were: no Pending Job is recorded for the remainder.
\<close>

theorem follow_request_with_partial_quota:
  assumes "checkTrialStatus (database w) (clock w) (jd_userId (job_data job))"
    and "getCampaign (database w) (jd_campaignId (job_data job)) = Inr campaign"
    and "isCampaignActive campaign"
    and "getLinkedInAccount (database w) (jd_userId (job_data job)) = Inr accountData"
    and "limitOf (database w) (jd_userId (job_data job)) Connections = 30"
    and "usageToday (database w) (clock w) (jd_userId (job_data job)) Connections = 28"
    and "dataImportLimit job = 10"
  shows "fst (getMaxActionsForRun (database w) (clock w) (jd_userId (job_data job))
                Connections 10) = 2
     \<and> processSteps job w =
         runWithLogin
           (w\<lparr>database := afterReads (database w) (clock w) (jd_userId (job_data job)) 10\<rparr>)
           campaign accountData
           (\<lambda>args. sendFollowRequests (arg_page args) campaign 2 (dataMaxDurationMs job))
     \<and> pending_jobs (database (snd (process job w))) = pending_jobs (database w)"
proof -
  have g: "fst (getMaxActionsForRun (database w) (clock w) (jd_userId (job_data job))
                  Connections 10) = 2"
    using assms(5,6) by (simp add: getMaxActionsForRun_fst availableQuota_eq)
  have s: "processSteps job w =
         runWithLogin
           (w\<lparr>database := afterReads (database w) (clock w) (jd_userId (job_data job)) 10\<rparr>)
           campaign accountData
           (\<lambda>args. sendFollowRequests (arg_page args) campaign 2 (dataMaxDurationMs job))"
    using g assms(7) by (simp add: processSteps_decision [OF assms(1-4)] Let_def)
  have q: "quotaTables (snd (process job w)) = quotaTables w"
    using g assms(7) by (intro process_positive_quotaTables [OF assms(1-4)]) simp
  show ?thesis using g s q by (simp add: quotaTables_def)
qed

text \<open>The scenario, and the same user with the 30 connections of the day used up.\<close>

definition w_exhausted :: world where
  "w_exhausted =
     w_scenario\<lparr>database := db_scenario
        \<lparr>daily_usage := [(''u1'', \<lparr>connections = 30, messages = 0, visits = 0, inmails = 0,
                                 date = 20000\<rparr>)]\<rparr>\<rparr>"

lemmas scenario_defs =
  w_scenario_def w_exhausted_def db_scenario_def empty_db_def job10_def camp1_def acct1_def
  no_payload_def empty_queue_def a_moment_def today_def single_def defaultSettings_def

lemma scenario_checks:
  "checkTrialStatus (database w_scenario) (clock w_scenario) (jd_userId (job_data job10))"
  "getCampaign (database w_scenario) (jd_campaignId (job_data job10)) = Inr camp1"
  "isCampaignActive camp1"
  "getLinkedInAccount (database w_scenario) (jd_userId (job_data job10)) = Inr acct1"
  "limitOf (database w_scenario) (jd_userId (job_data job10)) Connections = 30"
  "usageToday (database w_scenario) (clock w_scenario) (jd_userId (job_data job10))
     Connections = 28"
  "dataImportLimit job10 = 10"
  by (simp_all add: checkTrialStatus_def getCampaign_def getLinkedInAccount_def
      isCampaignActive_def limitOf_def usageToday_def loadLinkedInSettings_def
      getDailyUsage_def dataImportLimit_def orDefault_def scenario_defs)

lemma exhausted_checks:
  "checkTrialStatus (database w_exhausted) (clock w_exhausted) (jd_userId (job_data job10))"
  "getCampaign (database w_exhausted) (jd_campaignId (job_data job10)) = Inr camp1"
  "getLinkedInAccount (database w_exhausted) (jd_userId (job_data job10)) = Inr acct1"
  "fst (getMaxActionsForRun (database w_exhausted) (clock w_exhausted)
          (jd_userId (job_data job10)) Connections (dataImportLimit job10)) \<le> 0"
  "\<not> failing (database w_exhausted) T_pending_jobs Insert"
  by (simp_all add: checkTrialStatus_def getCampaign_def getLinkedInAccount_def
      getMaxActionsForRun_fst getRemainingQuotas_def availableQuota_def
      loadLinkedInSettings_def getDailyUsage_def dataImportLimit_def orDefault_def
      scenario_defs)

theorem getMaxActionsForRun_clamps_and_defers_witness:
  "fst (getMaxActionsForRun (database w_exhausted) (clock w_exhausted) ''u1'' Connections 10) = 0
   \<and> fst (process job10 w_exhausted) = Inr ()
   \<and> map requested_count (pending_jobs (database (snd (process job10 w_exhausted)))) = [10]"
proof -
  have z: "limitOf (database w_exhausted) ''u1'' Connections = 30"
      "usageToday (database w_exhausted) (clock w_exhausted) ''u1'' Connections = 30"
    by (simp_all add: limitOf_def usageToday_def loadLinkedInSettings_def getDailyUsage_def
        scenario_defs)
  have e: "pending_jobs (database w_exhausted) = []" "dataImportLimit job10 = 10"
    by (simp_all add: scenario_defs dataImportLimit_def orDefault_def)
  show ?thesis
    using getMaxActionsForRun_clamps_and_defers
      [OF exhausted_checks(1,2) scenario_checks(3) exhausted_checks(3,4,5),
       of "database w_exhausted" "clock w_exhausted" "''u1''" Connections 10] z e
    by simp
qed

theorem follow_request_with_partial_quota_witness:
  "fst (getMaxActionsForRun (database w_scenario) (clock w_scenario) ''u1'' Connections 10) = 2
   \<and> pending_jobs (database (snd (process job10 w_scenario))) = []"
proof -
  have e: "pending_jobs (database w_scenario) = []" "jd_userId (job_data job10) = ''u1''"
    by (simp_all add: scenario_defs)
  show ?thesis
    using follow_request_with_partial_quota [OF scenario_checks] e by simp
qed

lemmas eval_defs =
  process_def processSteps_def checkTrialStatus_def getCampaign_def getLinkedInAccount_def
  isCampaignActive_def logUsageAndLimits_def dataImportLimit_def dataMaxDurationMs_def
  orDefault_def getMaxActionsForRun_def getRemainingQuotas_def loadLinkedInSettings_def
  getDailyUsage_def availableQuota_def usageToday_def limitOf_def
  runWithLogin_def obtainSession_def getSession_def createSession_def new_handle_def query_def
  timeoutMs_def startedRecord_def completedRecord_def
  sendFollowRequests_def countConnections_def processSearchCampaign_def
  openList_def andThen_def ret_def effect_def delay_def call_def searchLoop.simps
  processPersonConnection_def personSteps_def existingConnection_def
  lastSegment_def findButtons_def clickConnect_def hasNote_def recordConnection_def
  insertConnection_def logActivity_def connectionRow_def updateCampaignProcessedCount_def
  goToNextPage_def nextPageSteps_def elapsedSince_def yes_def no_def three_people_def
  open_answer_def Let_def

lemma scenario_run:
  "case process job10 w_scenario of
     (r, w') \<Rightarrow>
       r = Inr ()
       \<and> map (profile_url \<circ> snd) (linkedin_connections (database w')) =
           [''https://www.linkedin.com/in/ann'', ''https://www.linkedin.com/in/bob'']
       \<and> usageToday (database w') (clock w') ''u1'' Connections = 28
       \<and> pending_jobs (database w') = []"
  by (simp add: eval_defs scenario_defs)

text \<open>
  C3 as stated fails.  In the scenario the job is allowed 2 and completes having sent two
  connection requests; after it the usage counter of the day is still 28, not 30, and no
  Pending Job is recorded.
\<close>

theorem follow_request_with_partial_quota_counterexample:
  "limitOf (database w_scenario) ''u1'' Connections = 30
   \<and> usageToday (database w_scenario) (clock w_scenario) ''u1'' Connections = 28
   \<and> fst (getMaxActionsForRun (database w_scenario) (clock w_scenario) ''u1'' Connections 10) = 2
   \<and> fst (process job10 w_scenario) = Inr ()
   \<and> map (profile_url \<circ> snd)
        (linkedin_connections (database (snd (process job10 w_scenario)))) =
       [''https://www.linkedin.com/in/ann'', ''https://www.linkedin.com/in/bob'']
   \<and> usageToday (database (snd (process job10 w_scenario)))
        (clock (snd (process job10 w_scenario))) ''u1'' Connections = 28
   \<and> pending_jobs (database (snd (process job10 w_scenario))) = []"
proof -
  have g: "fst (getMaxActionsForRun (database w_scenario) (clock w_scenario) ''u1''
                  Connections 10) = 2"
    using scenario_checks(5,6)
    by (simp add: getMaxActionsForRun_fst availableQuota_eq job10_def)
  have r: "fst (process job10 w_scenario) = Inr ()"
    "map (profile_url \<circ> snd)
        (linkedin_connections (database (snd (process job10 w_scenario)))) =
       [''https://www.linkedin.com/in/ann'', ''https://www.linkedin.com/in/bob'']"
    "usageToday (database (snd (process job10 w_scenario)))
        (clock (snd (process job10 w_scenario))) ''u1'' Connections = 28"
    "pending_jobs (database (snd (process job10 w_scenario))) = []"
    using scenario_run by (simp_all add: case_prod_beta)
  show ?thesis
    using scenario_checks(5,6) g r by (simp add: job10_def)
qed

end
